theory Spec2Isabelle
  imports Complex_Main "HOL-Library.Product_Lexorder" "HOL-Library.Multiset"
begin

section \<open>Pagination: the box tree\<close>

text \<open>
  The layout package (\<^verbatim>\<open>src/unnamed/part_001\<close>) splits a tree of nodes across pages.
  JavaScript numbers are modelled as rationals (exact arithmetic, no NaN or infinities; where
  the source produces \<^verbatim>\<open>-Infinity\<close> the model uses \<open>None\<close>). A node is modelled as it
  looks after \<^verbatim>\<open>createInstances\<close>, geometry resolution and text layout: \<^verbatim>\<open>props\<close>,
  \<^verbatim>\<open>box\<close>, \<^verbatim>\<open>style\<close>, \<^verbatim>\<open>children\<close> are present, and \<^verbatim>\<open>lines\<close> is an array (empty for
  nodes that are not text). A key of \<^verbatim>\<open>props\<close> that may be absent is an \<open>option\<close>.
\<close>

datatype ntype = TEXT | SVG | NOTE | IMAGE | CANVAS | VIEW | LINK

record props =
  p_fixed :: "bool option"
  p_wrap :: "bool option"
  p_break :: "bool option"
  p_minPresenceAhead :: "rat option"
  p_widows :: "nat option"
  p_orphans :: "nat option"

record box =
  b_top :: rat
  b_height :: rat
  b_marginTop :: rat
  b_marginBottom :: rat
  b_borderTopWidth :: rat
  b_borderBottomWidth :: rat

record style =
  s_height :: "rat option"
  s_marginTop :: rat
  s_marginBottom :: rat
  s_paddingTop :: rat
  s_paddingBottom :: rat
  s_borderTopWidth :: rat
  s_borderBottomWidth :: rat
  s_borderTopLeftRadius :: rat
  s_borderTopRightRadius :: rat
  s_borderBottomLeftRadius :: rat
  s_borderBottomRightRadius :: rat

text \<open>A laid-out text line: only the height of its box matters to pagination.\<close>

record line =
  l_string :: string
  l_height :: rat

datatype node =
  Node (n_type: ntype) (n_props: props) (n_box: box) (n_style: style)
       (n_children: "node list") (n_lines: "line list")

text \<open>\<^verbatim>\<open>x || d\<close> on an optional number: an absent key and 0 both give the default.\<close>

definition orDefault :: "nat option \<Rightarrow> nat \<Rightarrow> nat" where
  "orDefault v d = (case v of None \<Rightarrow> d | Some x \<Rightarrow> if x = 0 then d else x)"

text \<open>\<^verbatim>\<open>isFixed\<close>: \<^verbatim>\<open>'fixed' in node.props ? node.props.fixed === true : false\<close>.\<close>

definition isFixed :: "node \<Rightarrow> bool" where
  "isFixed node = (case p_fixed (n_props node) of None \<Rightarrow> False | Some v \<Rightarrow> v)"

subsection \<open>Splitting a text node: orphans and widows\<close>

text \<open>
  \<^verbatim>\<open>lineIndexAtHeight\<close>: the \<^verbatim>\<open>for\<close> loop over the lines, with the loop index \<open>i\<close> and the
  running offset \<open>y\<close> as arguments; \<open>ls\<close> are the lines from index \<open>i\<close> on.
\<close>

fun lineIndexLoop :: "line list \<Rightarrow> rat \<Rightarrow> nat \<Rightarrow> rat \<Rightarrow> nat" where
  "lineIndexLoop [] height i y = i"
| "lineIndexLoop (l # ls) height i y =
     (if y + l_height l > height then i else lineIndexLoop ls height (i + 1) (y + l_height l))"

definition lineIndexAtHeight :: "node \<Rightarrow> rat \<Rightarrow> nat" where
  "lineIndexAtHeight node height = lineIndexLoop (n_lines node) height 0 0"

text \<open>\<^verbatim>\<open>heightAtLineIndex\<close>: the loop stops at \<open>index\<close> or at the first missing line.\<close>

definition heightAtLineIndex :: "node \<Rightarrow> nat \<Rightarrow> rat" where
  "heightAtLineIndex node index = sum_list (map l_height (take index (n_lines node)))"

definition getLineBreak :: "node \<Rightarrow> rat \<Rightarrow> nat" where
  "getLineBreak node height =
     (let top = b_top (n_box node);
          widows = orDefault (p_widows (n_props node)) 2;
          orphans = orDefault (p_orphans (n_props node)) 2;
          linesQuantity = length (n_lines node);
          slicedLine = lineIndexAtHeight node (height - top)
      in if slicedLine = 0 then 0
         else if linesQuantity < orphans then linesQuantity
         else if slicedLine < orphans \<or> linesQuantity < orphans + widows then 0
         else if linesQuantity = orphans + widows then orphans
         else if linesQuantity - slicedLine < widows then linesQuantity - widows
         else slicedLine)"

definition splitText :: "node \<Rightarrow> rat \<Rightarrow> node \<times> node" where
  "splitText node height =
     (let slicedLineIndex = getLineBreak node height;
          currentHeight = heightAtLineIndex node slicedLineIndex;
          nextHeight = b_height (n_box node) - currentHeight;
          current = Node (n_type node) (n_props node)
            ((n_box node)\<lparr>b_height := currentHeight, b_borderBottomWidth := 0\<rparr>)
            ((n_style node)\<lparr>s_marginBottom := 0, s_paddingBottom := 0,
               s_borderBottomWidth := 0, s_borderBottomLeftRadius := 0,
               s_borderBottomRightRadius := 0\<rparr>)
            (n_children node) (take slicedLineIndex (n_lines node));
          next = Node (n_type node) (n_props node)
            ((n_box node)\<lparr>b_top := 0, b_height := nextHeight, b_borderTopWidth := 0\<rparr>)
            ((n_style node)\<lparr>s_marginTop := 0, s_paddingTop := 0,
               s_borderTopWidth := 0, s_borderTopLeftRadius := 0,
               s_borderTopRightRadius := 0\<rparr>)
            (n_children node) (drop slicedLineIndex (n_lines node))
      in (current, next))"

subsection \<open>Splitting a list of sibling nodes\<close>

definition getTop :: "node \<Rightarrow> rat" where
  "getTop node = b_top (n_box node)"

definition hasFixedHeight :: "node \<Rightarrow> bool" where
  "hasFixedHeight node = (s_height (n_style node) \<noteq> None)"

text \<open>
  \<^verbatim>\<open>splitNode\<close>: the current part gets the style height \<open>height - nodeTop\<close>; the next part
  gets \<open>nextHeight\<close> only when it is truthy (a node with a style height, and a non-zero rest).
\<close>

definition splitNode :: "node \<Rightarrow> rat \<Rightarrow> node \<times> node" where
  "splitNode node height =
     (let nodeTop = getTop node;
          current = Node (n_type node) (n_props node)
            ((n_box node)\<lparr>b_borderBottomWidth := 0\<rparr>)
            ((n_style node)\<lparr>s_height := Some (height - nodeTop), s_marginBottom := 0,
               s_paddingBottom := 0, s_borderBottomWidth := 0,
               s_borderBottomLeftRadius := 0, s_borderBottomRightRadius := 0\<rparr>)
            (n_children node) (n_lines node);
          nextHeight = (if hasFixedHeight node
                        then Some (b_height (n_box node) - (height - nodeTop)) else None);
          nextStyle = (n_style node)\<lparr>s_marginTop := 0, s_paddingTop := 0,
               s_borderTopWidth := 0, s_borderTopLeftRadius := 0,
               s_borderTopRightRadius := 0\<rparr>;
          next = Node (n_type node) (n_props node)
            ((n_box node)\<lparr>b_top := 0, b_borderTopWidth := 0\<rparr>)
            (case nextHeight of
               None \<Rightarrow> nextStyle
             | Some h \<Rightarrow> if h = 0 then nextStyle else nextStyle\<lparr>s_height := Some h\<rparr>)
            (n_children node) (n_lines node)
      in (current, next))"

definition NON_WRAP_TYPES :: "ntype list" where
  "NON_WRAP_TYPES = [SVG, NOTE, IMAGE, CANVAS]"

definition getWrap :: "node \<Rightarrow> bool" where
  "getWrap node =
     (if n_type node \<in> set NON_WRAP_TYPES then False
      else case p_wrap (n_props node) of None \<Rightarrow> True | Some w \<Rightarrow> w)"

definition getBreak :: "node \<Rightarrow> bool" where
  "getBreak node = (case p_break (n_props node) of None \<Rightarrow> False | Some b \<Rightarrow> b)"

definition getMinPresenceAhead :: "node \<Rightarrow> rat" where
  "getMinPresenceAhead node =
     (case p_minPresenceAhead (n_props node) of None \<Rightarrow> 0 | Some m \<Rightarrow> m)"

text \<open>\<^verbatim>\<open>Math.max(...[])\<close> is \<^verbatim>\<open>-Infinity\<close>: \<open>None\<close> here.\<close>

definition getFurthestEnd :: "node list \<Rightarrow> rat option" where
  "getFurthestEnd elements =
     (case map (\<lambda>node. b_top (n_box node) + b_height (n_box node)) elements of
        [] \<Rightarrow> None
      | e # es \<Rightarrow> Some (fold max es e))"

definition getEndOfMinPresenceAhead :: "node \<Rightarrow> rat" where
  "getEndOfMinPresenceAhead child =
     b_top (n_box child) + b_height (n_box child) + b_marginBottom (n_box child)
       + getMinPresenceAhead child"

definition getEndOfPresence :: "node \<Rightarrow> node list \<Rightarrow> rat option" where
  "getEndOfPresence child futureElements =
     (let afterMinPresenceAhead = getEndOfMinPresenceAhead child;
          endOfFurthestFutureElement =
            getFurthestEnd (filter (\<lambda>node. p_fixed (n_props node) = None) futureElements)
      in case endOfFurthestFutureElement of
           None \<Rightarrow> None
         | Some e \<Rightarrow> Some (min afterMinPresenceAhead e))"

definition shouldBreak :: "node \<Rightarrow> node list \<Rightarrow> rat \<Rightarrow> bool" where
  "shouldBreak child futureElements height =
     (if p_fixed (n_props child) \<noteq> None then False
      else
        let shouldSplit = height < b_top (n_box child) + b_height (n_box child);
            canWrap = getWrap child;
            endOfPresence = getEndOfPresence child futureElements;
            breakingImprovesPresence = b_top (n_box child) > b_marginTop (n_box child)
        in getBreak child \<or> (shouldSplit \<and> \<not> canWrap)
           \<or> (\<not> shouldSplit
               \<and> (case endOfPresence of None \<Rightarrow> False | Some e \<Rightarrow> e > height)
               \<and> breakingImprovesPresence))"

definition isText :: "node \<Rightarrow> bool" where
  "isText node = (n_type node = TEXT)"

definition SAFETY_THRESHOLD :: rat where
  "SAFETY_THRESHOLD = 1 / 1000"

definition assingChildren :: "node list \<Rightarrow> node \<Rightarrow> node" where
  "assingChildren children node =
     Node (n_type node) (n_props node) (n_box node) (n_style node) children (n_lines node)"

definition allFixed :: "node list \<Rightarrow> bool" where
  "allFixed nodes = list_all isFixed nodes"

text \<open>The node moved whole to the next page: its top is shifted by the height.\<close>

definition moveNext :: "node \<Rightarrow> rat \<Rightarrow> node" where
  "moveNext child height =
     Node (n_type child) (n_props child)
       ((n_box child)\<lparr>b_top := b_top (n_box child) - height\<rparr>)
       (n_style child) (n_children child) (n_lines child)"

definition moveNextBreak :: "node \<Rightarrow> rat \<Rightarrow> node" where
  "moveNextBreak child height =
     Node (n_type child) ((n_props child)\<lparr>p_wrap := Some True, p_break := Some False\<rparr>)
       ((n_box child)\<lparr>b_top := b_top (n_box child) - height\<rparr>)
       (n_style child) (n_children child) (n_lines child)"

text \<open>
  \<^verbatim>\<open>splitNodes\<close>, \<^verbatim>\<open>split\<close>, \<^verbatim>\<open>splitView\<close> and \<^verbatim>\<open>splitChildren\<close> are mutually recursive.
  The \<^verbatim>\<open>for\<close> loop of \<^verbatim>\<open>splitNodes\<close> is \<open>splitNodesLoop\<close>: its list argument holds the
  child at index \<open>i\<close> followed by \<^verbatim>\<open>futureNodes\<close>, and the two arrays being filled are
  passed along. A \<^verbatim>\<open>break\<close> returns the arrays, a \<^verbatim>\<open>continue\<close> is the recursive call.
\<close>

function splitNodesLoop ::
    "rat \<Rightarrow> rat \<Rightarrow> node list \<Rightarrow> node list \<Rightarrow> node list \<Rightarrow> node list \<times> node list"
  and split :: "node \<Rightarrow> rat \<Rightarrow> rat \<Rightarrow> node \<times> node"
where
  "splitNodesLoop height contentArea [] currentChildren nextChildren =
     (currentChildren, nextChildren)"
| "splitNodesLoop height contentArea (child # futureNodes) currentChildren nextChildren =
     (let futureFixedNodes = filter isFixed futureNodes;
          nodeTop = getTop child;
          nodeHeight = b_height (n_box child);
          isOutside = height \<le> nodeTop;
          shouldBreak1 = shouldBreak child futureNodes height;
          shouldSplit = height + SAFETY_THRESHOLD < nodeTop + nodeHeight;
          canWrap = getWrap child;
          fitsInsidePage = nodeHeight \<le> contentArea
      in if isFixed child then
           splitNodesLoop height contentArea futureNodes
             (currentChildren @ [child]) (nextChildren @ [child])
         else if isOutside then
           splitNodesLoop height contentArea futureNodes
             currentChildren (nextChildren @ [moveNext child height])
         else if \<not> fitsInsidePage \<and> \<not> canWrap then
           (currentChildren @ [child], nextChildren @ futureNodes)
         else if shouldBreak1 then
           (currentChildren @ futureFixedNodes,
            nextChildren @ moveNextBreak child height # futureNodes)
         else if shouldSplit then
           (case split child height contentArea of (currentChild, nextChild) \<Rightarrow>
              if length (n_children child) > 0 \<and> length (n_children currentChild) = 0 then
                (if length currentChildren = 0 then
                   (currentChildren @ child # futureFixedNodes, nextChildren @ futureNodes)
                 else
                   (currentChildren @ futureFixedNodes,
                    nextChildren @ moveNext child height # futureNodes))
              else
                splitNodesLoop height contentArea futureNodes
                  (currentChildren @ [currentChild]) (nextChildren @ [nextChild]))
         else
           splitNodesLoop height contentArea futureNodes
             (currentChildren @ [child]) nextChildren)"
| "split (Node t p b s ch ls) height contentArea =
     (let node = Node t p b s ch ls
      in if isText node then splitText node height
         else
           (case splitNode node height of (currentNode, nextNode) \<Rightarrow>
            case splitNodesLoop (height - getTop node) contentArea ch [] [] of
              (currentChilds, nextChildren) \<Rightarrow>
                (assingChildren currentChilds currentNode,
                 assingChildren nextChildren nextNode)))"
  by pat_completeness auto
termination
  by (relation "measure (\<lambda>x. case x of
         Inl (h, c, ns, cur, nxt) \<Rightarrow> size_list size ns
       | Inr (n, h, c) \<Rightarrow> size n)") auto

definition splitNodes :: "rat \<Rightarrow> rat \<Rightarrow> node list \<Rightarrow> node list \<times> node list" where
  "splitNodes height contentArea nodes = splitNodesLoop height contentArea nodes [] []"

subsection \<open>Splitting a page and the pagination loop\<close>

text \<open>
  A page is a node with page-level sizing. Its box loses the height on a continuation page
  (\<^verbatim>\<open>omit('height', page.box)\<close>) and its props lose the bookmark, so these are options.
  The Yoga handle is removed from every node after geometry resolution, so \<^verbatim>\<open>getPadding\<close>
  reads the box, then the style, then 0.
\<close>

record page =
  pg_wrap :: "bool option"
  pg_bookmark :: "string option"
  pg_box_height :: "rat option"
  pg_box_paddingTop :: "rat option"
  pg_box_paddingBottom :: "rat option"
  pg_style_height :: rat
  pg_style_paddingTop :: "rat option"
  pg_style_paddingBottom :: "rat option"
  pg_children :: "node list"

text \<open>\<^verbatim>\<open>a || b || 0\<close> on optional numbers.\<close>

definition truthy :: "rat option \<Rightarrow> bool" where
  "truthy v = (case v of None \<Rightarrow> False | Some x \<Rightarrow> x \<noteq> 0)"

definition orElse0 :: "rat option \<Rightarrow> rat option \<Rightarrow> rat" where
  "orElse0 a b = (if truthy a then the a else if truthy b then the b else 0)"

definition getWrapArea :: "page \<Rightarrow> rat" where
  "getWrapArea pg =
     pg_style_height pg - orElse0 (pg_box_paddingBottom pg) (pg_style_paddingBottom pg)"

definition getContentArea :: "page \<Rightarrow> rat" where
  "getContentArea pg =
     pg_style_height pg - orElse0 (pg_box_paddingBottom pg) (pg_style_paddingBottom pg)
       - orElse0 (pg_box_paddingTop pg) (pg_style_paddingTop pg)"

text \<open>
  \<^verbatim>\<open>splitPage\<close>. The geometry and text relayout (\<^verbatim>\<open>relayoutPage\<close>, which calls the Yoga
  solver and the text engine) and the evaluation of render callbacks
  (\<^verbatim>\<open>resolveDynamicPage\<close>) are outside the model: they are the parameters \<open>relayout\<close>
  and \<open>dynamic\<close>.
\<close>

definition splitPage ::
    "(page \<Rightarrow> page) \<Rightarrow> (nat \<Rightarrow> page \<Rightarrow> page) \<Rightarrow> page \<Rightarrow> nat \<Rightarrow> page \<times> page option" where
  "splitPage relayout dynamic pg pageNumber =
     (let wrapArea = getWrapArea pg;
          contentArea = getContentArea pg;
          dynamicPage = dynamic pageNumber pg;
          height = pg_style_height pg
      in case splitNodes wrapArea contentArea (pg_children dynamicPage) of
           (currentChilds, nextChilds) \<Rightarrow>
             let currentPage =
                   relayout (pg\<lparr>pg_box_height := Some height, pg_children := currentChilds\<rparr>)
             in if length nextChilds = 0 \<or> allFixed nextChilds then (currentPage, None)
                else (currentPage,
                      Some (relayout (pg\<lparr>pg_bookmark := None, pg_box_height := None,
                                         pg_children := nextChilds\<rparr>))))"

text \<open>
  The \<^verbatim>\<open>while (nextPage !== null)\<close> loop of \<^verbatim>\<open>paginate\<close>. It may run forever, so it is
  a partial function: \<open>None\<close> means that it does not return.
\<close>

partial_function (option) paginateLoop ::
    "(page \<Rightarrow> page) \<Rightarrow> (nat \<Rightarrow> page \<Rightarrow> page) \<Rightarrow> nat \<Rightarrow> page list \<Rightarrow> page option
       \<Rightarrow> page list option" where
  "paginateLoop relayout dynamic pageNumber pages nextPage =
     (case nextPage of
        None \<Rightarrow> Some pages
      | Some np \<Rightarrow>
          (case splitPage relayout dynamic np (pageNumber + length pages) of
             (current, next) \<Rightarrow>
               paginateLoop relayout dynamic pageNumber (pages @ [current]) next))"

definition paginate ::
    "(page \<Rightarrow> page) \<Rightarrow> (nat \<Rightarrow> page \<Rightarrow> page) \<Rightarrow> page option \<Rightarrow> nat \<Rightarrow> page list option" where
  "paginate relayout dynamic pg pageNumber =
     (case pg of
        None \<Rightarrow> Some []
      | Some p \<Rightarrow>
          if pg_wrap p = Some False then Some [p]
          else case splitPage relayout dynamic p pageNumber of
                 (current, next) \<Rightarrow> paginateLoop relayout dynamic pageNumber [current] next)"

subsection \<open>Example inputs of the pagination functions\<close>

definition noProps :: props where
  "noProps = \<lparr>p_fixed = None, p_wrap = None, p_break = None, p_minPresenceAhead = None,
              p_widows = None, p_orphans = None\<rparr>"

definition boxAt :: "rat \<Rightarrow> rat \<Rightarrow> box" where
  "boxAt t h = \<lparr>b_top = t, b_height = h, b_marginTop = 0, b_marginBottom = 0,
                b_borderTopWidth = 0, b_borderBottomWidth = 0\<rparr>"

definition plainStyle :: style where
  "plainStyle = \<lparr>s_height = None, s_marginTop = 0, s_marginBottom = 0, s_paddingTop = 0,
                 s_paddingBottom = 0, s_borderTopWidth = 0, s_borderBottomWidth = 0,
                 s_borderTopLeftRadius = 0, s_borderTopRightRadius = 0,
                 s_borderBottomLeftRadius = 0, s_borderBottomRightRadius = 0\<rparr>"

text \<open>A paragraph of five lines, each 10 high, with \<open>orphans = widows = 2\<close>.\<close>

definition fiveLines :: node where
  "fiveLines = Node TEXT (noProps\<lparr>p_widows := Some 2, p_orphans := Some 2\<rparr>) (boxAt 0 50)
     plainStyle []
     [\<lparr>l_string = ''one'', l_height = 10\<rparr>, \<lparr>l_string = ''two'', l_height = 10\<rparr>,
      \<lparr>l_string = ''three'', l_height = 10\<rparr>, \<lparr>l_string = ''four'', l_height = 10\<rparr>,
      \<lparr>l_string = ''five'', l_height = 10\<rparr>]"

text \<open>An image taller than the page, followed by a fixed footer.\<close>

definition tallImage :: node where
  "tallImage = Node IMAGE noProps (boxAt 0 1000) plainStyle [] []"

definition footer :: node where
  "footer = Node VIEW (noProps\<lparr>p_fixed := Some True\<rparr>) (boxAt 1000 20) plainStyle [] []"

text \<open>
  The layout engine is not part of the source. For block children without margins, in a
  page without padding, it places each child below the one before it; \<open>restack\<close> is that
  placement, with the heights as they are. \<open>noRender\<close> is \<^verbatim>\<open>resolveDynamicPage\<close> on a
  page without render callbacks: it returns the page.
\<close>

fun stackFrom :: "rat \<Rightarrow> node list \<Rightarrow> node list" where
  "stackFrom y [] = []"
| "stackFrom y (n # ns) =
     Node (n_type n) (n_props n) ((n_box n)\<lparr>b_top := y\<rparr>) (n_style n) (n_children n)
       (n_lines n)
     # stackFrom (y + b_height (n_box n)) ns"

definition restack :: "page \<Rightarrow> page" where
  "restack pg = pg\<lparr>pg_children := stackFrom 0 (pg_children pg)\<rparr>"

definition noRender :: "nat \<Rightarrow> page \<Rightarrow> page" where
  "noRender pageNumber pg = pg"

text \<open>
  A laid-out page 100 high: a fixed header, a heading that asks for 90 of the content after
  it on its own page, and a body 500 high that may wrap.
\<close>

definition header :: node where
  "header = Node VIEW (noProps\<lparr>p_fixed := Some True\<rparr>) (boxAt 0 10) plainStyle [] []"

definition heading :: node where
  "heading = Node VIEW (noProps\<lparr>p_minPresenceAhead := Some 90\<rparr>) (boxAt 10 10)
     plainStyle [] []"

definition body :: node where
  "body = Node VIEW noProps (boxAt 20 500) plainStyle [] []"

definition headed :: page where
  "headed = \<lparr>pg_wrap = None, pg_bookmark = None, pg_box_height = Some 100,
      pg_box_paddingTop = None, pg_box_paddingBottom = None, pg_style_height = 100,
      pg_style_paddingTop = None, pg_style_paddingBottom = None,
      pg_children = [header, heading, body]\<rparr>"

text \<open>The continuation page of \<open>headed\<close>, laid out again.\<close>

definition headedNext :: page where
  "headedNext = headed\<lparr>pg_box_height := None,
      pg_children := [header,
        Node VIEW (noProps\<lparr>p_minPresenceAhead := Some 90, p_wrap := Some True,
                            p_break := Some False\<rparr>) (boxAt 10 10) plainStyle [] [],
        body]\<rparr>"

section \<open>Text layout: attributed strings\<close>

text \<open>
  The text engine (\<^verbatim>\<open>textkit.js\<close>) works on attributed strings: a string and a list of
  runs. A run is a range of the string with an attributes object and, after shaping, the
  glyphs of the range, their positions and the index of the glyph of every character.
  Offsets are JavaScript numbers that hold integers; \<^verbatim>\<open>glyphIndices\<close>, \<^verbatim>\<open>glyphs\<close> and
  \<^verbatim>\<open>positions\<close> are optional keys. An attributes object is a map from keys to values
  (\<^verbatim>\<open>Object.assign({}, a, b)\<close> is \<open>a ++ b\<close>).
\<close>

record font =
  f_name :: string
  f_unitsPerEm :: rat

record glyph =
  g_id :: nat
  g_codePoints :: "nat list"
  g_advanceWidth :: rat
  g_isLigature :: bool
  g_isMark :: bool

record position =
  xAdvance :: rat
  yAdvance :: rat
  xOffset :: rat
  yOffset :: rat

datatype aval = ANum rat | AStr string | ABool bool | AFonts "font list"

type_synonym attributes = "string \<rightharpoonup> aval"

record run =
  r_start :: int
  r_end :: int
  r_attributes :: attributes
  r_glyphIndices :: "int list option"
  r_glyphs :: "glyph list option"
  r_positions :: "position list option"

record attributedString =
  a_string :: string
  a_runs :: "run list"
  a_syllables :: "string list"

subsection \<open>Flattening runs\<close>

definition isEmpty :: "run \<Rightarrow> bool" where
  "isEmpty run = (r_start run = r_end run)"

text \<open>\<^verbatim>\<open>sort\<close>: \<^verbatim>\<open>Array.prototype.sort\<close> is stable, as \<open>sort_key\<close> is.\<close>

definition sortRuns :: "run list \<Rightarrow> run list" where
  "sortRuns runs = sort_key (\<lambda>r. (r_start r, r_end r)) runs"

text \<open>
  A point of \<^verbatim>\<open>generatePoints\<close>: \<^verbatim>\<open>[type, offset, attributes, index]\<close>.
  \<^verbatim>\<open>flattenRegularRuns\<close> compares attributes objects by identity
  (\<^verbatim>\<open>stack[j] === attributes\<close>), so an input run comes with the identity of its attributes
  object, a value of any type \<open>'i\<close>: two runs share the object when they have the same
  identity. The runs that \<^verbatim>\<open>flatten\<close> returns hold new objects.
\<close>

datatype ptype = PStart | PEnd

type_synonym 'i point = "ptype \<times> int \<times> ('i \<times> attributes) \<times> nat"

definition pointsOf :: "nat \<Rightarrow> ('i \<times> run) \<Rightarrow> 'i point list" where
  "pointsOf i lr =
     [(PStart, r_start (snd lr), (fst lr, r_attributes (snd lr)), i),
      (PEnd, r_end (snd lr), (fst lr, r_attributes (snd lr)), i)]"

text \<open>\<^verbatim>\<open>sortPoints\<close> compares the offsets, then the run indices.\<close>

definition pointKey :: "'i point \<Rightarrow> int \<times> nat" where
  "pointKey p = (case p of (ty, offset, a, i) \<Rightarrow> (offset, i))"

definition sortPoints :: "'i point list \<Rightarrow> 'i point list" where
  "sortPoints ps = sort_key pointKey ps"

definition generatePoints :: "('i \<times> run) list \<Rightarrow> 'i point list" where
  "generatePoints runs =
     sortPoints (concat (map (\<lambda>(i, lr). pointsOf i lr) (enumerate 0 runs)))"

definition regularRun :: "int \<Rightarrow> int \<Rightarrow> attributes \<Rightarrow> run" where
  "regularRun start offset attrs =
     \<lparr>r_start = start, r_end = offset, r_attributes = attrs,
      r_glyphIndices = Some [], r_glyphs = Some [], r_positions = Some []\<rparr>"

text \<open>
  The loop of \<^verbatim>\<open>flattenRegularRuns\<close> over the points, with its variables \<open>res\<close>,
  \<open>start\<close> (\<open>-1\<close> before the first point), \<open>attrs\<close> and \<open>stack\<close>. At an end point every
  entry of the stack that is the ended attributes object is removed and the others are
  merged again, in order.
\<close>

fun flattenLoop ::
    "'i point list \<Rightarrow> run list \<Rightarrow> int \<Rightarrow> attributes \<Rightarrow> ('i \<times> attributes) list \<Rightarrow> run list" where
  "flattenLoop [] res start attrs stack = res"
| "flattenLoop ((ty, offset, (ident, attributes), i) # ps) res start attrs stack =
     (let res' = (if start \<noteq> -1 \<and> start < offset
                  then res @ [regularRun start offset attrs] else res)
      in case ty of
           PStart \<Rightarrow>
             flattenLoop ps res' offset (attrs ++ attributes) (stack @ [(ident, attributes)])
         | PEnd \<Rightarrow>
             (let stack' = filter (\<lambda>e. fst e \<noteq> ident) stack;
                  attrs' = fold (\<lambda>e acc. acc ++ snd e) stack' Map.empty
              in flattenLoop ps res' offset attrs' stack'))"

definition flattenRegularRuns :: "('i \<times> run) list \<Rightarrow> run list" where
  "flattenRegularRuns runs = flattenLoop (generatePoints runs) [] (-1) Map.empty []"

text \<open>
  \<^verbatim>\<open>mergeRuns\<close> reduces a group from the empty object: the result is the last run of the
  group with the attributes of all runs merged, later ones winning. No group is empty;
  \<open>None\<close> stands for the empty object.
\<close>

definition mergeRuns :: "run list \<Rightarrow> run option" where
  "mergeRuns runs =
     fold (\<lambda>run acc. Some (run\<lparr>r_attributes :=
              (case acc of None \<Rightarrow> Map.empty | Some a \<Rightarrow> r_attributes a) ++ r_attributes run\<rparr>))
       runs None"

text \<open>
  \<^verbatim>\<open>groupEmptyRuns\<close> collects the runs in an array indexed by \<^verbatim>\<open>run.start\<close> and returns
  \<^verbatim>\<open>Object.values\<close> of it: the groups at the array indices in ascending order, then those
  at other keys (negative offsets) in the order in which they were created.
\<close>

definition groupKeys :: "run list \<Rightarrow> int list" where
  "groupKeys runs =
     sort (remdups (filter (\<lambda>k. 0 \<le> k) (map r_start runs)))
       @ rev (remdups (rev (filter (\<lambda>k. k < 0) (map r_start runs))))"

definition groupEmptyRuns :: "run list \<Rightarrow> run list list" where
  "groupEmptyRuns runs = map (\<lambda>k. filter (\<lambda>r. r_start r = k) runs) (groupKeys runs)"

definition flattenEmptyRuns :: "run list \<Rightarrow> run list" where
  "flattenEmptyRuns runs = List.map_filter mergeRuns (groupEmptyRuns runs)"

definition flatten :: "('i \<times> run) list \<Rightarrow> run list" where
  "flatten runs =
     (let emptyRuns = flattenEmptyRuns (filter isEmpty (map snd runs));
          regularRuns = flattenRegularRuns (filter (\<lambda>lr. \<not> isEmpty (snd lr)) runs)
      in sortRuns (emptyRuns @ regularRuns))"

subsection \<open>Shape of the flattened runs\<close>

text \<open>
  The runs that \<^verbatim>\<open>flattenRegularRuns\<close> pushes have empty glyph data and follow one another:
  each starts where the previous one ends. The loop cannot push a run that starts at
  \<open>-1\<close>, the initial value of \<open>start\<close>, so after a run that ends at \<open>-1\<close> the next one starts
  later. \<open>chainFrom s rs\<close> says that \<open>rs\<close> is such a sequence, as pushed when the
  variable \<open>start\<close> holds \<open>s\<close> (\<open>None\<close> before the first point).
\<close>

definition plainRun :: "run \<Rightarrow> bool" where
  "plainRun r = (r_glyphIndices r = Some [] \<and> r_glyphs r = Some [] \<and> r_positions r = Some [])"

fun chainFrom :: "int option \<Rightarrow> run list \<Rightarrow> bool" where
  "chainFrom s [] = True"
| "chainFrom s (r # rs) =
     ((case s of None \<Rightarrow> r_start r \<noteq> -1
       | Some x \<Rightarrow> if x = -1 then -1 < r_start r else r_start r = x)
      \<and> r_start r < r_end r \<and> plainRun r \<and> chainFrom (Some (r_end r)) rs)"

definition startVar :: "int option \<Rightarrow> int" where
  "startVar s = (case s of None \<Rightarrow> -1 | Some x \<Rightarrow> x)"

definition pts :: "nat \<Rightarrow> ('i \<times> run) list \<Rightarrow> 'i point list" where
  "pts k lrs = concat (map (\<lambda>(i, lr). pointsOf i lr) (enumerate k lrs))"

definition runKey :: "run \<Rightarrow> int \<times> int" where
  "runKey r = (r_start r, r_end r)"

definition pick :: "run list \<Rightarrow> int \<Rightarrow> run" where
  "pick X k = the (mergeRuns (filter (\<lambda>r. r_start r = k) X))"

definition exampleRun :: "int \<Rightarrow> int \<Rightarrow> attributes \<Rightarrow> run" where
  "exampleRun s e a = \<lparr>r_start = s, r_end = e, r_attributes = a,
     r_glyphIndices = None, r_glyphs = None, r_positions = None\<rparr>"

text \<open>Three runs that overlap, one of them empty, and a fourth after a gap.\<close>

definition overlapping :: "(nat \<times> run) list" where
  "overlapping =
     [(0, exampleRun 0 10 [''color'' \<mapsto> AStr ''red'']),
      (1, exampleRun 2 5 [''bold'' \<mapsto> ABool True]),
      (2, exampleRun 3 3 [''color'' \<mapsto> AStr ''blue'']),
      (3, exampleRun 12 14 Map.empty)]"

section \<open>Text layout: slicing, appending and concatenating\<close>

subsection \<open>JavaScript arrays and strings\<close>

text \<open>
  \<^verbatim>\<open>xs.slice(start, end)\<close> of arrays and strings: a negative index counts from the end, both
  indices are clamped to the length. \<open>None\<close> as end stands for \<^verbatim>\<open>Infinity\<close> (or an omitted
  end). \<^verbatim>\<open>xs[i]\<close> is \<^verbatim>\<open>undefined\<close> (\<open>None\<close>) out of range.
\<close>

definition jsIndex :: "int \<Rightarrow> nat \<Rightarrow> nat" where
  "jsIndex i len = (if i < 0 then nat (max (int len + i) 0) else min (nat i) len)"

definition jsSlice :: "int \<Rightarrow> int option \<Rightarrow> 'a list \<Rightarrow> 'a list" where
  "jsSlice start end' xs =
     (let k = jsIndex start (length xs);
          f = (case end' of None \<Rightarrow> length xs | Some e \<Rightarrow> jsIndex e (length xs))
      in take (f - k) (drop k xs))"

definition jsNth :: "'a list \<Rightarrow> int \<Rightarrow> 'a option" where
  "jsNth xs i = (if 0 \<le> i \<and> i < int (length xs) then Some (xs ! nat i) else None)"

definition jsLast :: "'a list \<Rightarrow> 'a option" where
  "jsLast xs = (if xs = [] then None else Some (last xs))"

text \<open>
  \<^verbatim>\<open>String.fromCodePoint\<close>: strings are lists of bytes here, so the model covers code points
  below 256, one character each.
\<close>

definition stringFromCodePoints :: "nat list \<Rightarrow> string" where
  "stringFromCodePoints codePoints = map char_of codePoints"

text \<open>
  The only exception that these functions raise is a TypeError. \<open>UndefinedNumber\<close> is not
  an exception of the source: it marks the places where the source would go on with
  \<^verbatim>\<open>undefined\<close> as a number, which the model does not follow.
\<close>

datatype error = TypeError | UndefinedNumber

subsection \<open>Runs\<close>

text \<open>
  The shaping of a string by a font (\<^verbatim>\<open>font.layout(string).glyphs\<close>) and the glyph of a
  code point (\<^verbatim>\<open>font.glyphForCodePoint\<close>) belong to the font library: they are the
  parameters \<open>layout\<close> and \<open>glyphFor\<close>. The \<^verbatim>\<open>font\<close> attribute holds a list of fonts.
\<close>

type_synonym layoutFn = "font \<Rightarrow> nat list \<Rightarrow> glyph list"
type_synonym glyphForFn = "font \<Rightarrow> nat \<Rightarrow> glyph"

definition getFont :: "run \<Rightarrow> font option" where
  "getFont run =
     (case r_attributes run ''font'' of
        Some (AFonts (f # fs)) \<Rightarrow> Some f
      | _ \<Rightarrow> None)"

definition calculateScale :: "run \<Rightarrow> rat" where
  "calculateScale run =
     (let fontSize = (case r_attributes run ''fontSize'' of
                        Some (ANum n) \<Rightarrow> if n = 0 then 12 else n
                      | _ \<Rightarrow> 12);
          unitsPerEm = (case getFont run of None \<Rightarrow> 0 | Some f \<Rightarrow> f_unitsPerEm f)
      in if unitsPerEm \<noteq> 0 then fontSize / unitsPerEm else 0)"

definition scale :: "run \<Rightarrow> rat" where
  "scale run =
     (case r_attributes run ''scale'' of
        Some (ANum n) \<Rightarrow> if n \<noteq> 0 then n else calculateScale run
      | _ \<Rightarrow> calculateScale run)"

definition orEmpty :: "'a list option \<Rightarrow> 'a list" where
  "orEmpty xs = (case xs of None \<Rightarrow> [] | Some ys \<Rightarrow> ys)"

text \<open>\<^verbatim>\<open>offset\<close>: how many characters before \<open>index\<close> map to the same glyph as it.\<close>

definition offset :: "int \<Rightarrow> run \<Rightarrow> nat" where
  "offset index run =
     (let glyphIndices = orEmpty (r_glyphIndices run)
      in case jsNth glyphIndices index of
           None \<Rightarrow> 0
         | Some v \<Rightarrow> length (filter (\<lambda>i. i = v) (jsSlice 0 (Some index) glyphIndices)))"

text \<open>\<^verbatim>\<open>slice$2\<close>: the part of a glyph between two of its code points.\<close>

definition slice2 :: "layoutFn \<Rightarrow> int \<Rightarrow> int option \<Rightarrow> font option \<Rightarrow> glyph option \<Rightarrow> glyph list" where
  "slice2 layout start end' font glyph =
     (case glyph of
        None \<Rightarrow> []
      | Some g \<Rightarrow>
          if Some start = end' then []
          else if start = 0 \<and> end' = Some (int (length (g_codePoints g))) then [g]
          else case font of
                 None \<Rightarrow> [g]
               | Some f \<Rightarrow> layout f (jsSlice start end' (g_codePoints g)))"

definition glyphIndexAt :: "int \<Rightarrow> run \<Rightarrow> int" where
  "glyphIndexAt index run =
     (case r_glyphIndices run of
        None \<Rightarrow> index
      | Some gi \<Rightarrow> (case jsNth gi index of None \<Rightarrow> index | Some v \<Rightarrow> v))"

definition normalize :: "int list \<Rightarrow> int list" where
  "normalize array = (case array of [] \<Rightarrow> [] | head # rest \<Rightarrow> map (\<lambda>value. value - head) array)"

definition glyphPosition :: "rat \<Rightarrow> glyph \<Rightarrow> position" where
  "glyphPosition runScale g =
     \<lparr>xAdvance = g_advanceWidth g * runScale, yAdvance = 0, xOffset = 0, yOffset = 0\<rparr>"

text \<open>
  \<^verbatim>\<open>slice$1\<close>: a run between two character indices relative to its start. The end is
  \<open>None\<close> when the source passes \<^verbatim>\<open>Infinity\<close>: then \<^verbatim>\<open>glyphIndexAt\<close> returns \<^verbatim>\<open>Infinity\<close>,
  the end glyph is undefined and the end offset is 0.
\<close>

definition slice1 :: "layoutFn \<Rightarrow> int \<Rightarrow> int option \<Rightarrow> run \<Rightarrow> run" where
  "slice1 layout start end' run =
     (let runScale = scale run;
          font = getFont run;
          startIndex = glyphIndexAt start run;
          endIndex = map_option (\<lambda>e. glyphIndexAt e run) end';
          startGlyph = jsNth (orEmpty (r_glyphs run)) startIndex;
          endGlyph = (case endIndex of None \<Rightarrow> None | Some e \<Rightarrow> jsNth (orEmpty (r_glyphs run)) e);
          startOffset = offset start run;
          startGlyphs = (if startOffset > 0
                         then slice2 layout (int startOffset) None font startGlyph else []);
          endOffset = (case end' of None \<Rightarrow> 0 | Some e \<Rightarrow> offset e run);
          endGlyphs = slice2 layout 0 (Some (int endOffset)) font endGlyph;
          sliceStart = startIndex + int (min 1 startOffset);
          glyphs = jsSlice sliceStart endIndex (orEmpty (r_glyphs run));
          startPositions = map (glyphPosition runScale) startGlyphs;
          positions = jsSlice sliceStart endIndex (orEmpty (r_positions run));
          endPositions = map (glyphPosition runScale) endGlyphs
      in run\<lparr>r_start := r_start run + start,
              r_end := (case end' of None \<Rightarrow> r_end run
                        | Some e \<Rightarrow> min (r_end run) (r_start run + e)),
              r_glyphIndices := Some (normalize (jsSlice start end' (orEmpty (r_glyphIndices run)))),
              r_glyphs := Some (startGlyphs @ glyphs @ endGlyphs),
              r_positions := Some (startPositions @ positions @ endPositions)\<rparr>)"

text \<open>\<^verbatim>\<open>runIndexAt$1\<close>: \<^verbatim>\<open>findIndex\<close> gives \<open>-1\<close> when no run holds the index.\<close>

fun findRunIndex :: "int \<Rightarrow> run list \<Rightarrow> int \<Rightarrow> int" where
  "findRunIndex index [] i = -1"
| "findRunIndex index (run # runs) i =
     (if r_start run \<le> index \<and> index < r_end run then i else findRunIndex index runs (i + 1))"

definition runIndexAt1 :: "int \<Rightarrow> run list \<Rightarrow> int" where
  "runIndexAt1 index runs = findRunIndex index runs 0"

text \<open>\<^verbatim>\<open>filter\<close>: the runs between the one that holds \<open>start\<close> and the one that holds \<open>end - 1\<close>.\<close>

definition filterRuns :: "int \<Rightarrow> int \<Rightarrow> run list \<Rightarrow> run list" where
  "filterRuns start end' runs =
     (let startIndex = runIndexAt1 start runs;
          endIndex = max (runIndexAt1 (end' - 1) runs) startIndex
      in jsSlice startIndex (Some (endIndex + 1)) runs)"

definition subtract :: "int \<Rightarrow> run \<Rightarrow> run" where
  "subtract index run = run\<lparr>r_start := r_start run - index, r_end := r_end run - index\<rparr>"

definition add :: "int \<Rightarrow> run \<Rightarrow> run" where
  "add index run = run\<lparr>r_start := r_start run + index, r_end := r_end run + index\<rparr>"

definition sliceRuns :: "layoutFn \<Rightarrow> int \<Rightarrow> int \<Rightarrow> run list \<Rightarrow> run list" where
  "sliceRuns layout start end' runs =
     map (\<lambda>(i, run).
            let isFirst = (i = 0);
                isLast = (\<not> isFirst \<and> i = length runs - 1);
                result = (if isFirst
                          then slice1 layout (start - r_start run) (Some (end' - r_start run)) run
                          else run);
                result' = (if isLast
                           then slice1 layout 0 (Some (end' - r_start run)) run
                           else result)
            in subtract start result')
         (enumerate 0 runs)"

text \<open>\<^verbatim>\<open>length\<close> and \<^verbatim>\<open>concat\<close> of runs.\<close>

definition runLength :: "run \<Rightarrow> int" where
  "runLength run = r_end run - r_start run"

definition concat_run :: "run \<Rightarrow> run \<Rightarrow> run" where
  "concat_run runA runB =
     (let end' = r_end runA + runLength runB;
          glyphs = orEmpty (r_glyphs runA) @ orEmpty (r_glyphs runB);
          positions = orEmpty (r_positions runA) @ orEmpty (r_positions runB);
          attributes = r_attributes runA ++ r_attributes runB;
          runAIndices = orEmpty (r_glyphIndices runA);
          runALastIndex = (case jsLast runAIndices of None \<Rightarrow> 0 | Some l \<Rightarrow> l);
          runBIndices = map (\<lambda>i. i + runALastIndex + 1) (orEmpty (r_glyphIndices runB));
          glyphIndices = normalize (runAIndices @ runBIndices)
      in runA\<lparr>r_end := end', r_glyphs := Some glyphs, r_positions := Some positions,
               r_attributes := attributes, r_glyphIndices := Some glyphIndices\<rparr>)"

text \<open>
  Appending a glyph. The value given to \<^verbatim>\<open>append\<close> is a code point, a glyph, or nothing
  (\<^verbatim>\<open>null\<close>, \<^verbatim>\<open>undefined\<close>).
\<close>

datatype gval = GNothing | GCode nat | GGlyph glyph

definition empty_run :: run where
  "empty_run = \<lparr>r_start = 0, r_end = 0, r_attributes = Map.empty,
                r_glyphIndices = Some [], r_glyphs = Some [], r_positions = Some []\<rparr>"

definition appendIndices :: "nat \<Rightarrow> int list \<Rightarrow> int list" where
  "appendIndices len indices =
     (let value = (case jsLast indices of None \<Rightarrow> 0 | Some lastIndex \<Rightarrow> lastIndex + 1)
      in indices @ replicate len value)"

text \<open>\<^verbatim>\<open>fromCodePoint\<close>: \<^verbatim>\<open>null\<close> without a font or for the code point 0.\<close>

definition fromCodePoint :: "glyphForFn \<Rightarrow> nat \<Rightarrow> font option \<Rightarrow> glyph option" where
  "fromCodePoint glyphFor value font =
     (case font of
        None \<Rightarrow> None
      | Some f \<Rightarrow> if value \<noteq> 0 then Some (glyphFor f value) else None)"

text \<open>
  \<^verbatim>\<open>appendGlyph\<close> reads \<^verbatim>\<open>glyph.codePoints\<close>, \<^verbatim>\<open>run.glyphs.concat\<close> and
  \<^verbatim>\<open>indices.concat\<close> without a check: a \<^verbatim>\<open>null\<close> glyph and a run without glyphs or glyph
  indices raise a TypeError.
\<close>

definition appendGlyph :: "glyph option \<Rightarrow> run \<Rightarrow> error + run" where
  "appendGlyph glyph run =
     (case glyph of
        None \<Rightarrow> Inl TypeError
      | Some g \<Rightarrow>
          (case (r_glyphs run, r_glyphIndices run) of
             (Some gs, Some gi) \<Rightarrow>
               (let glyphLength = length (g_codePoints g);
                    end' = r_end run + int glyphLength;
                    glyphs = gs @ [g];
                    glyphIndices = appendIndices glyphLength gi
                in case r_positions run of
                     None \<Rightarrow> Inr (run\<lparr>r_end := end', r_glyphs := Some glyphs,
                                       r_glyphIndices := Some glyphIndices\<rparr>)
                   | Some ps \<Rightarrow>
                       Inr (run\<lparr>r_end := end', r_glyphs := Some glyphs,
                               r_glyphIndices := Some glyphIndices,
                               r_positions := Some (ps @ [glyphPosition (scale run) g])\<rparr>))
           | _ \<Rightarrow> Inl TypeError))"

definition isFalsy :: "gval \<Rightarrow> bool" where
  "isFalsy value = (case value of GNothing \<Rightarrow> True | GCode n \<Rightarrow> n = 0 | GGlyph g \<Rightarrow> False)"

definition resolveGlyph :: "glyphForFn \<Rightarrow> gval \<Rightarrow> font option \<Rightarrow> glyph option" where
  "resolveGlyph glyphFor value font =
     (case value of
        GNothing \<Rightarrow> None
      | GCode n \<Rightarrow> fromCodePoint glyphFor n font
      | GGlyph g \<Rightarrow> Some g)"

definition append1 :: "glyphForFn \<Rightarrow> gval \<Rightarrow> run \<Rightarrow> error + run" where
  "append1 glyphFor value run =
     (if isFalsy value then Inr run
      else appendGlyph (resolveGlyph glyphFor value (getFont run)) run)"

text \<open>\<^verbatim>\<open>insertGlyph$1\<close> and \<^verbatim>\<open>insert\<close>: a run with a glyph put in at an index.\<close>

definition insertGlyph1 :: "layoutFn \<Rightarrow> glyphForFn \<Rightarrow> int \<Rightarrow> glyph option \<Rightarrow> run \<Rightarrow> error + run" where
  "insertGlyph1 layout glyphFor index glyph run =
     (case glyph of
        None \<Rightarrow> Inr run
      | Some g \<Rightarrow>
          (let leadingRun = slice1 layout 0 (Some index) run;
               trailingRun = slice1 layout index None run
           in case append1 glyphFor (GGlyph g) leadingRun of
                Inl e \<Rightarrow> Inl e
              | Inr r \<Rightarrow> Inr (concat_run r trailingRun)))"

definition insert_run :: "layoutFn \<Rightarrow> glyphForFn \<Rightarrow> int \<Rightarrow> gval \<Rightarrow> run \<Rightarrow> error + run" where
  "insert_run layout glyphFor index value run =
     insertGlyph1 layout glyphFor index (resolveGlyph glyphFor value (getFont run)) run"

subsection \<open>Attributed strings\<close>

definition empty_string :: attributedString where
  "empty_string = \<lparr>a_string = [], a_runs = [], a_syllables = []\<rparr>"

definition slice :: "layoutFn \<Rightarrow> int \<Rightarrow> int \<Rightarrow> attributedString \<Rightarrow> attributedString" where
  "slice layout start end' attributedString =
     (if length (a_string attributedString) = 0 then attributedString
      else
        let string = jsSlice start (Some end') (a_string attributedString);
            filteredRuns = filterRuns start end' (a_runs attributedString);
            slicedRuns = sliceRuns layout start end' filteredRuns
        in attributedString\<lparr>a_string := string, a_runs := slicedRuns\<rparr>)"

text \<open>
  \<^verbatim>\<open>trim\<close> looks for the first and the last character that \<^verbatim>\<open>/\S/\<close> matches; both
  indices are \<open>-1\<close> when there is none. The white space of the model is that of ASCII.
\<close>

definition isSpace :: "char \<Rightarrow> bool" where
  "isSpace c = (c \<in> set [CHR '' '', CHR 0x09, CHR 0x0A, CHR 0x0B, CHR 0x0C, CHR 0x0D])"

fun findCharLoop :: "string \<Rightarrow> int \<Rightarrow> int" where
  "findCharLoop [] i = -1"
| "findCharLoop (c # cs) i = (if \<not> isSpace c then i else findCharLoop cs (i + 1))"

definition findCharIndex :: "string \<Rightarrow> int" where
  "findCharIndex string = findCharLoop string 0"

definition findLastCharIndex :: "string \<Rightarrow> int" where
  "findLastCharIndex string =
     (case findCharLoop (rev string) 0 of
        r \<Rightarrow> if r = -1 then -1 else int (length string) - 1 - r)"

definition trim :: "layoutFn \<Rightarrow> attributedString \<Rightarrow> attributedString" where
  "trim layout attributedString =
     (let start = findCharIndex (a_string attributedString);
          end' = findLastCharIndex (a_string attributedString)
      in slice layout start (end' + 1) attributedString)"

definition codePointsOf :: "gval \<Rightarrow> nat list" where
  "codePointsOf glyph =
     (case glyph of GNothing \<Rightarrow> [] | GCode n \<Rightarrow> [n] | GGlyph g \<Rightarrow> g_codePoints g)"

definition append :: "glyphForFn \<Rightarrow> gval \<Rightarrow> attributedString \<Rightarrow> error + attributedString" where
  "append glyphFor glyph attributedString =
     (let codePointsString = stringFromCodePoints (codePointsOf glyph);
          string = a_string attributedString @ codePointsString;
          firstRuns = jsSlice 0 (Some (-1)) (a_runs attributedString);
          lastRun = (case jsLast (a_runs attributedString) of None \<Rightarrow> empty_run | Some r \<Rightarrow> r)
      in case append1 glyphFor glyph lastRun of
           Inl e \<Rightarrow> Inl e
         | Inr r \<Rightarrow> Inr (attributedString\<lparr>a_string := string, a_runs := firstRuns @ [r]\<rparr>))"

section \<open>Text layout: the line breaker\<close>

subsection \<open>Breakpoint nodes\<close>

text \<open>
  The nodes of Knuth and Plass: a box (a word or syllable), a glue (white space that can
  stretch and shrink) and a penalty (a place where the line may break at a cost). Boxes and
  glues know the character range that they come from.
\<close>

datatype knode =
    Box (k_width: rat) (k_start: int) (k_end: int) (k_hyphenated: bool)
  | Glue (k_width: rat) (k_start: int) (k_end: int) (k_stretch: rat) (k_shrink: rat)
  | Penalty (k_width: rat) (k_penalty: rat) (k_flagged: rat)

definition isBox :: "knode \<Rightarrow> bool" where
  "isBox node = (case node of Box w s e h \<Rightarrow> True | _ \<Rightarrow> False)"

definition isGlue :: "knode \<Rightarrow> bool" where
  "isGlue node = (case node of Glue w s e st sh \<Rightarrow> True | _ \<Rightarrow> False)"

definition isPenalty :: "knode \<Rightarrow> bool" where
  "isPenalty node = (case node of Penalty w p f \<Rightarrow> True | _ \<Rightarrow> False)"

text \<open>\<^verbatim>\<open>node.end\<close>: a penalty has none.\<close>

definition nodeEnd :: "knode \<Rightarrow> int option" where
  "nodeEnd node =
     (case node of Box w s e h \<Rightarrow> Some e | Glue w s e st sh \<Rightarrow> Some e | Penalty w p f \<Rightarrow> None)"

definition infinity :: rat where
  "infinity = 10000"

record ksum =
  sm_width :: rat
  sm_stretch :: rat
  sm_shrink :: rat

definition zeroSums :: ksum where
  "zeroSums = \<lparr>sm_width = 0, sm_stretch = 0, sm_shrink = 0\<rparr>"

text \<open>
  An entry of the list of active nodes, made by \<^verbatim>\<open>breakpoint\<close>. \<^verbatim>\<open>previous\<close> points to
  the entry that the line starts at; entries are never changed, so the model holds the
  previous entry as a value.
\<close>

datatype breakpoint =
  Breakpoint (bp_position: nat) (bp_demerits: rat) (bp_line: nat) (bp_fitnessClass: nat)
             (bp_totals: ksum) (bp_previous: "breakpoint option")

subsection \<open>The algorithm of Knuth and Plass\<close>

text \<open>
  \<^verbatim>\<open>computeCost\<close>: the adjustment ratio of the line from the active node to the node at
  \<open>end\<close>. The line length is undefined for an empty list of lengths; every comparison
  with it is false and the ratio is 0.
\<close>

definition lineLengthAt :: "rat list \<Rightarrow> nat \<Rightarrow> rat option" where
  "lineLengthAt lineLengths currentLine =
     (if currentLine < length lineLengths then jsNth lineLengths (int currentLine - 1)
      else jsNth lineLengths (int (length lineLengths) - 1))"

definition computeCost :: "knode list \<Rightarrow> rat list \<Rightarrow> ksum \<Rightarrow> nat \<Rightarrow> breakpoint \<Rightarrow> nat \<Rightarrow> rat" where
  "computeCost nodes lineLengths sumSoFar end' active currentLine =
     (let width0 = sm_width sumSoFar - sm_width (bp_totals active);
          width = (if isPenalty (nodes ! end') then width0 + k_width (nodes ! end') else width0)
      in case lineLengthAt lineLengths currentLine of
           None \<Rightarrow> 0
         | Some lineLength \<Rightarrow>
             if width < lineLength then
               (let stretch = sm_stretch sumSoFar - sm_stretch (bp_totals active)
                in if stretch > 0 then (lineLength - width) / stretch else infinity)
             else if width > lineLength then
               (let shrink = sm_shrink sumSoFar - sm_shrink (bp_totals active)
                in if shrink > 0 then (lineLength - width) / shrink else infinity)
             else 0)"

text \<open>
  \<^verbatim>\<open>computeSum\<close>: the ksum after the glue that follows the break, up to the next box or
  forced break. \<open>first\<close> tells whether the node is the one at \<open>breakPointIndex\<close>.
\<close>

fun computeSumLoop :: "knode list \<Rightarrow> bool \<Rightarrow> ksum \<Rightarrow> ksum" where
  "computeSumLoop [] first result = result"
| "computeSumLoop (Glue w s e st sh # ns) first result =
     computeSumLoop ns False
       \<lparr>sm_width = sm_width result + w, sm_stretch = sm_stretch result + st,
        sm_shrink = sm_shrink result + sh\<rparr>"
| "computeSumLoop (Box w s e h # ns) first result = result"
| "computeSumLoop (Penalty w p f # ns) first result =
     (if p = - infinity \<and> \<not> first then result else computeSumLoop ns False result)"

definition computeSum :: "knode list \<Rightarrow> ksum \<Rightarrow> nat \<Rightarrow> ksum" where
  "computeSum nodes sumSoFar breakPointIndex = computeSumLoop (drop breakPointIndex nodes) True sumSoFar"

definition isForced :: "knode \<Rightarrow> bool" where
  "isForced node = (case node of Penalty w p f \<Rightarrow> p = - infinity | _ \<Rightarrow> False)"

text \<open>The demerits of a line that ends at \<open>node\<close> with the given ratio.\<close>

definition lineDemerits :: "knode list \<Rightarrow> knode \<Rightarrow> breakpoint \<Rightarrow> rat \<Rightarrow> nat \<Rightarrow> rat" where
  "lineDemerits nodes node active ratio currentClass =
     (let badness = 100 * \<bar>ratio\<bar> ^ 3;
          d0 = (case node of
                  Penalty w p f \<Rightarrow>
                    if p \<ge> 0 then (10 + badness) ^ 2 + p ^ 2
                    else if p \<noteq> - infinity then (10 + badness) ^ 2 - p ^ 2
                    else (10 + badness) ^ 2
                | _ \<Rightarrow> (10 + badness) ^ 2);
          d1 = (case (node, nodes ! bp_position active) of
                  (Penalty w p f, Penalty w' p' f') \<Rightarrow> d0 + 100 * f * f'
                | _ \<Rightarrow> d0);
          d2 = (if \<bar>int currentClass - int (bp_fitnessClass active)\<bar> > 1 then d1 + 3000 else d1)
      in d2 + bp_demerits active)"

definition fitnessClassOf :: "rat \<Rightarrow> nat" where
  "fitnessClassOf ratio =
     (if ratio < - (1 / 2) then 0 else if ratio \<le> 1 / 2 then 1 else if ratio \<le> 1 then 2 else 3)"

text \<open>
  A ratio is within the valid range, and the node becomes a candidate break, when it is
  between \<open>-1\<close> and the tolerance.
\<close>

definition feasible :: "rat \<Rightarrow> rat \<Rightarrow> bool" where
  "feasible tolerance ratio = (ratio \<ge> -1 \<and> ratio \<le> tolerance)"

text \<open>
  The candidates of the four fitness classes: the best active node and the demerits, or
  \<open>None\<close> for \<^verbatim>\<open>{ active: undefined, demerits: Infinity }\<close>.
\<close>

type_synonym candidate = "(breakpoint \<times> rat) option"

definition noCandidates :: "candidate list" where
  "noCandidates = [None, None, None, None]"

definition betterThan :: "rat \<Rightarrow> candidate \<Rightarrow> bool" where
  "betterThan demerits c = (case c of None \<Rightarrow> True | Some (a, d) \<Rightarrow> demerits < d)"

definition newNodes :: "nat \<Rightarrow> ksum \<Rightarrow> candidate list \<Rightarrow> breakpoint list" where
  "newNodes index tmpSum candidates =
     concat (map (\<lambda>(fitnessClass, c).
                    case c of
                      None \<Rightarrow> []
                    | Some (active, demerits) \<Rightarrow>
                        [Breakpoint index demerits (bp_line active + 1) fitnessClass tmpSum
                           (Some active)])
                 (enumerate 0 candidates))"

text \<open>
  \<^verbatim>\<open>mainLoop\<close> walks the list of active nodes. The inner loop handles the active nodes up
  to the first one whose line is not below \<open>currentLine\<close>, removes those that are too far
  from the node (or all, at a forced break) and records the best candidate of each fitness
  class; then the new active nodes are put in before that node, or at the end, and the
  outer loop goes on from it with new candidates. The function returns the list of active
  nodes after the loop: \<open>active # rest\<close> is the part of the list that is still to be
  visited and \<open>candidates\<close> are those of the inner loop that is running.
\<close>

fun mainLoopFrom ::
    "knode list \<Rightarrow> rat list \<Rightarrow> ksum \<Rightarrow> rat \<Rightarrow> knode \<Rightarrow> nat \<Rightarrow> breakpoint list \<Rightarrow> candidate list
       \<Rightarrow> breakpoint list" where
  "mainLoopFrom nodes lineLengths sumSoFar tolerance node index [] candidates = []"
| "mainLoopFrom nodes lineLengths sumSoFar tolerance node index (active # rest) candidates =
     (let currentLine = bp_line active + 1;
          ratio = computeCost nodes lineLengths sumSoFar index active currentLine;
          kept = (if ratio < -1 \<or> isForced node then [] else [active]);
          currentClass = fitnessClassOf ratio;
          demerits = lineDemerits nodes node active ratio currentClass;
          candidates' = (if feasible tolerance ratio
                            \<and> betterThan demerits (candidates ! currentClass)
                         then candidates[currentClass := Some (active, demerits)]
                         else candidates);
          tmpSum = computeSum nodes sumSoFar index
      in kept @
         (case rest of
            [] \<Rightarrow> newNodes index tmpSum candidates'
          | next # others \<Rightarrow>
              if bp_line next \<ge> currentLine then
                newNodes index tmpSum candidates'
                  @ mainLoopFrom nodes lineLengths sumSoFar tolerance node index rest noCandidates
              else mainLoopFrom nodes lineLengths sumSoFar tolerance node index rest candidates'))"

definition mainLoop ::
    "knode list \<Rightarrow> rat list \<Rightarrow> ksum \<Rightarrow> rat \<Rightarrow> knode \<Rightarrow> nat \<Rightarrow> breakpoint list \<Rightarrow> breakpoint list" where
  "mainLoop nodes lineLengths sumSoFar tolerance node index activeNodes =
     mainLoopFrom nodes lineLengths sumSoFar tolerance node index activeNodes noCandidates"

text \<open>\<^verbatim>\<open>nodes.forEach\<close> of \<^verbatim>\<open>linebreak\<close>: the state is the running \<^verbatim>\<open>sum\<close> (\<open>sumSoFar\<close>) and the active nodes.\<close>

definition addGlue :: "ksum \<Rightarrow> knode \<Rightarrow> ksum" where
  "addGlue sumSoFar node =
     \<lparr>sm_width = sm_width sumSoFar + k_width node, sm_stretch = sm_stretch sumSoFar + k_stretch node,
      sm_shrink = sm_shrink sumSoFar + k_shrink node\<rparr>"

definition visitNode ::
    "knode list \<Rightarrow> rat list \<Rightarrow> rat \<Rightarrow> ksum \<times> breakpoint list \<Rightarrow> nat \<Rightarrow> ksum \<times> breakpoint list" where
  "visitNode nodes lineLengths tolerance state index =
     (case state of (sumSoFar, activeNodes) \<Rightarrow>
        (case nodes ! index of
           Box w s e h \<Rightarrow> (sumSoFar\<lparr>sm_width := sm_width sumSoFar + w\<rparr>, activeNodes)
         | Glue w s e st sh \<Rightarrow>
             (let precedesBox = (index > 0 \<and> isBox (nodes ! (index - 1)));
                  activeNodes' = (if precedesBox
                                  then mainLoop nodes lineLengths sumSoFar tolerance (nodes ! index)
                                         index activeNodes
                                  else activeNodes)
              in (addGlue sumSoFar (nodes ! index), activeNodes'))
         | Penalty w p f \<Rightarrow>
             (if p \<noteq> infinity
              then (sumSoFar, mainLoop nodes lineLengths sumSoFar tolerance (nodes ! index) index
                           activeNodes)
              else (sumSoFar, activeNodes))))"

text \<open>
  \<^verbatim>\<open>findBestBreakpoints\<close>: the first active node with the least demerits, and the positions
  along its chain of previous nodes, first to last.
\<close>

fun chainPositions :: "breakpoint \<Rightarrow> nat list" where
  "chainPositions (Breakpoint position demerits line fitnessClass totals previous) =
     (case previous of None \<Rightarrow> [] | Some b \<Rightarrow> chainPositions b) @ [position]"

fun bestOf :: "breakpoint \<Rightarrow> breakpoint list \<Rightarrow> breakpoint" where
  "bestOf tmp [] = tmp"
| "bestOf tmp (node # rest) =
     (if bp_demerits node < bp_demerits tmp then bestOf node rest else bestOf tmp rest)"

definition findBestBreakpoints :: "breakpoint list \<Rightarrow> nat list" where
  "findBestBreakpoints activeNodes =
     (case activeNodes of [] \<Rightarrow> [] | first # rest \<Rightarrow> chainPositions (bestOf first rest))"

text \<open>\<^verbatim>\<open>tolerance || 3\<close>: a tolerance of 0 is replaced by 3.\<close>

definition toleranceOr :: "rat \<Rightarrow> rat \<Rightarrow> rat" where
  "toleranceOr tolerance d = (if tolerance = 0 then d else tolerance)"

definition startNode :: breakpoint where
  "startNode = Breakpoint 0 0 0 0 zeroSums None"

definition linebreak :: "knode list \<Rightarrow> rat list \<Rightarrow> rat \<Rightarrow> nat list" where
  "linebreak nodes availableWidths tolerance =
     findBestBreakpoints
       (snd (fold (\<lambda>index state. visitNode nodes availableWidths (toleranceOr tolerance 3) state index)
               [0..<length nodes] (zeroSums, [startNode])))"

subsection \<open>The best-fit fallback\<close>

text \<open>
  \<^verbatim>\<open>getNextBreakpoint\<close>. The line length is \<^verbatim>\<open>widths[Math.min(lineNumber,
  widths.length - 1)]\<close>, undefined for no widths. \<^verbatim>\<open>calculateRatio\<close> reads the running
  sum; a node without \<^verbatim>\<open>stretch\<close> (or \<^verbatim>\<open>shrink\<close>), or with 0, gives \<^verbatim>\<open>INFINITY\<close>.
\<close>

definition bestFitLineLength :: "rat list \<Rightarrow> nat \<Rightarrow> rat option" where
  "bestFitLineLength widths lineNumber =
     jsNth widths (min (int lineNumber) (int (length widths) - 1))"

definition overflows :: "ksum \<Rightarrow> rat option \<Rightarrow> bool" where
  "overflows sumSoFar lineLength =
     (case lineLength of None \<Rightarrow> False | Some l \<Rightarrow> sm_width sumSoFar - sm_shrink sumSoFar > l)"

definition calculateRatio :: "ksum \<Rightarrow> rat option \<Rightarrow> knode \<Rightarrow> rat" where
  "calculateRatio sumSoFar lineLength node =
     (case lineLength of
        None \<Rightarrow> 0
      | Some l \<Rightarrow>
          if sm_width sumSoFar < l then
            (case node of
               Glue w s e st sh \<Rightarrow>
                 if st = 0 then infinity
                 else if sm_stretch sumSoFar - st > 0 then (l - sm_width sumSoFar) / sm_stretch sumSoFar
                 else infinity
             | _ \<Rightarrow> infinity)
          else if sm_width sumSoFar > l then
            (case node of
               Glue w s e st sh \<Rightarrow>
                 if sh = 0 then infinity
                 else if sm_shrink sumSoFar - sh > 0 then (l - sm_width sumSoFar) / sm_shrink sumSoFar
                 else infinity
             | _ \<Rightarrow> infinity)
          else 0)"

text \<open>The \<^verbatim>\<open>while\<close> loop that skips the glues and penalties from index \<open>j\<close> on.\<close>

fun skipBreakable :: "knode list \<Rightarrow> nat \<Rightarrow> nat" where
  "skipBreakable [] j = j"
| "skipBreakable (n # ns) j = (if isGlue n \<or> isPenalty n then skipBreakable ns (j + 1) else j)"

text \<open>
  The \<^verbatim>\<open>for\<close> loop: \<open>ns\<close> are the nodes from index \<open>i\<close> on. The result is the value that
  \<^verbatim>\<open>getNextBreakpoint\<close> returns. \<open>minimumBadness\<close> is \<open>None\<close> for \<^verbatim>\<open>Infinity\<close>.
\<close>

fun nextBreakpointLoop ::
    "knode list \<Rightarrow> rat option \<Rightarrow> knode list \<Rightarrow> nat \<Rightarrow> ksum \<Rightarrow> nat option \<Rightarrow> rat option
       \<Rightarrow> nat option" where
  "nextBreakpointLoop subnodes lineLength [] i sumSoFar position minimumBadness =
     (if overflows sumSoFar lineLength then position else None)"
| "nextBreakpointLoop subnodes lineLength (node # ns) i sumSoFar position minimumBadness =
     (let sum1 = (case node of
                    Box w s e h \<Rightarrow> sumSoFar\<lparr>sm_width := sm_width sumSoFar + w\<rparr>
                  | Glue w s e st sh \<Rightarrow> addGlue sumSoFar node
                  | Penalty w p f \<Rightarrow> sumSoFar)
      in if overflows sum1 lineLength then
           (case position of
              None \<Rightarrow>
                (let j = (if i = 0 then i + 1 else i)
                 in Some (skipBreakable (drop j subnodes) j - 1))
            | Some p \<Rightarrow> Some p)
         else if isPenalty node \<or> isGlue node then
           (let ratio = calculateRatio sum1 lineLength node;
                penalty = (case node of Penalty w p f \<Rightarrow> p | _ \<Rightarrow> 0);
                badness = 100 * \<bar>ratio\<bar> ^ 3 + penalty
            in if (case minimumBadness of None \<Rightarrow> True | Some m \<Rightarrow> m \<ge> badness)
               then nextBreakpointLoop subnodes lineLength ns (i + 1) sum1 (Some i) (Some badness)
               else nextBreakpointLoop subnodes lineLength ns (i + 1) sum1 position minimumBadness)
         else nextBreakpointLoop subnodes lineLength ns (i + 1) sum1 position minimumBadness)"

definition getNextBreakpoint :: "knode list \<Rightarrow> rat list \<Rightarrow> nat \<Rightarrow> nat option" where
  "getNextBreakpoint subnodes widths lineNumber =
     nextBreakpointLoop subnodes (bestFitLineLength widths lineNumber) subnodes 0 zeroSums
       None None"

text \<open>
  \<^verbatim>\<open>applyBestFit\<close>: the \<^verbatim>\<open>while\<close> loop with its variables. Every round drops at least
  one node, so the loop ends.
\<close>

function applyBestFitLoop ::
    "rat list \<Rightarrow> knode list \<Rightarrow> nat \<Rightarrow> nat \<Rightarrow> nat list \<Rightarrow> nat list" where
  "applyBestFitLoop widths subnodes count' lineNumber breakpoints =
     (if length subnodes > 0 then
        (case getNextBreakpoint subnodes widths lineNumber of
           Some breakpoint \<Rightarrow>
             applyBestFitLoop widths (drop (breakpoint + 1) subnodes)
               (count' + breakpoint + 1) (lineNumber + 1) (breakpoints @ [count' + breakpoint])
         | None \<Rightarrow> breakpoints)
      else breakpoints)"
  by pat_completeness auto
termination
  by (relation "measure (\<lambda>(widths, subnodes, c, l, b). length subnodes)") auto

declare applyBestFitLoop.simps [simp del]

definition applyBestFit :: "knode list \<Rightarrow> rat list \<Rightarrow> nat list" where
  "applyBestFit nodes widths = applyBestFitLoop widths nodes 0 0 [0]"

subsection \<open>From syllables to nodes, from breaks to lines\<close>

definition advanceWidth2 :: "position list \<Rightarrow> rat" where
  "advanceWidth2 positions = fold (\<lambda>pos acc. acc + xAdvance pos) positions 0"

definition advanceWidthBetween1 :: "int \<Rightarrow> int \<Rightarrow> run \<Rightarrow> rat" where
  "advanceWidthBetween1 start end' run =
     (let runStart = r_start run;
          glyphStartIndex = max 0 (glyphIndexAt (start - runStart) run);
          glyphEndIndex = max 0 (glyphIndexAt (end' - runStart) run);
          positions = jsSlice glyphStartIndex (Some glyphEndIndex) (orEmpty (r_positions run))
      in advanceWidth2 positions)"

definition advanceWidthBetween :: "int \<Rightarrow> int \<Rightarrow> attributedString \<Rightarrow> rat" where
  "advanceWidthBetween start end' attributedString =
     fold (\<lambda>run acc. acc + advanceWidthBetween1 start end' run)
       (filterRuns start end' (a_runs attributedString)) 0"

text \<open>
  \<^verbatim>\<open>getNodes\<close>: a glue for a syllable of white space, a box for any other, and a penalty
  after a box that is followed by a syllable other than one space. The options give the
  hyphenation penalty (or nothing), the first run gives \<^verbatim>\<open>align\<close>.
\<close>

definition isBlank :: "string \<Rightarrow> bool" where
  "isBlank s = list_all isSpace s"

definition opts_width :: rat where "opts_width = 3"
definition opts_stretch :: rat where "opts_stretch = 6"
definition opts_shrink :: rat where "opts_shrink = 9"

fun getNodesLoop ::
    "attributedString \<Rightarrow> rat \<Rightarrow> string list \<Rightarrow> int \<Rightarrow> knode list \<Rightarrow> knode list \<times> int" where
  "getNodesLoop attributedString hyphenPenalty [] start acc = (acc, start)"
| "getNodesLoop attributedString hyphenPenalty (s # rest) start acc =
     (let width = advanceWidthBetween start (start + int (length s)) attributedString;
          end' = start + int (length s)
      in if isBlank s then
           getNodesLoop attributedString hyphenPenalty rest end'
             (acc @ [Glue width start end' (width * opts_width / opts_stretch)
                       (width * opts_width / opts_shrink)])
         else
           (let hyphenated = (case rest of [] \<Rightarrow> True | n # ns \<Rightarrow> n \<noteq> '' '');
                box = Box width start end' hyphenated
            in if (case rest of [] \<Rightarrow> False | n # ns \<Rightarrow> n \<noteq> []) \<and> hyphenated then
                 getNodesLoop attributedString hyphenPenalty rest end'
                   (acc @ [box, Penalty 5 hyphenPenalty 1])
               else getNodesLoop attributedString hyphenPenalty rest end' (acc @ [box])))"

record layoutOptions =
  o_tolerance :: "rat option"
  o_hyphenationPenalty :: "rat option"

definition getAttributes :: "attributedString \<Rightarrow> attributes" where
  "getAttributes attributedString =
     (case a_runs attributedString of [] \<Rightarrow> Map.empty | run # runs \<Rightarrow> r_attributes run)"

definition ratOr :: "rat option \<Rightarrow> rat \<Rightarrow> rat" where
  "ratOr v d = (case v of None \<Rightarrow> d | Some x \<Rightarrow> if x = 0 then d else x)"

definition getNodes :: "attributedString \<Rightarrow> attributes \<Rightarrow> layoutOptions \<Rightarrow> knode list" where
  "getNodes attributedString attributes options =
     (let hyphenPenalty = ratOr (o_hyphenationPenalty options)
                            (if attributes ''align'' = Some (AStr ''justify'') then 100 else 600)
      in case getNodesLoop attributedString hyphenPenalty (a_syllables attributedString) 0 [] of
           (result, start) \<Rightarrow>
             result @ [Glue 0 start start infinity 0, Penalty 0 (- infinity) 1])"

text \<open>
  \<^verbatim>\<open>insertGlyph\<close> of an attributed string: at an index that no run holds the glyph is
  appended.
\<close>

definition insertRuns ::
    "layoutFn \<Rightarrow> glyphForFn \<Rightarrow> int \<Rightarrow> nat \<Rightarrow> int \<Rightarrow> (nat \<times> run) list \<Rightarrow> error + run list" where
  "insertRuns layout glyphFor index glyph runIndex runs =
     fold (\<lambda>(i, run) acc.
             case acc of
               Inl e \<Rightarrow> Inl e
             | Inr rs \<Rightarrow>
                 if int i = runIndex then
                   (case insert_run layout glyphFor (index - r_start run) (GCode glyph) run of
                      Inl e \<Rightarrow> Inl e
                    | Inr r \<Rightarrow> Inr (rs @ [r]))
                 else if int i > runIndex then Inr (rs @ [add 1 run])
                 else Inr (rs @ [run]))
       runs (Inr [])"

definition insertGlyph ::
    "layoutFn \<Rightarrow> glyphForFn \<Rightarrow> int \<Rightarrow> nat \<Rightarrow> attributedString \<Rightarrow> error + attributedString" where
  "insertGlyph layout glyphFor index glyph attributedString =
     (let runIndex = runIndexAt1 index (a_runs attributedString)
      in if runIndex = -1 then append glyphFor (GCode glyph) attributedString
         else
           (let string = jsSlice 0 (Some index) (a_string attributedString)
                           @ stringFromCodePoints [glyph]
                           @ jsSlice index None (a_string attributedString)
            in case insertRuns layout glyphFor index glyph runIndex
                      (enumerate 0 (a_runs attributedString)) of
                 Inl e \<Rightarrow> Inl e
               | Inr runs \<Rightarrow> Inr (attributedString\<lparr>a_string := string, a_runs := runs\<rparr>)))"

definition HYPHEN :: nat where
  "HYPHEN = 45"

text \<open>
  \<^verbatim>\<open>breakLines\<close>: the \<^verbatim>\<open>reduce\<close> over the breaks with the variables \<open>start\<close> and the
  lines so far. A break at the last node is skipped. Reading \<^verbatim>\<open>node.type\<close> of a node that
  does not exist, or \<^verbatim>\<open>prevNode.end\<close> of a missing node, is a TypeError. A penalty always
  follows a box in the nodes of \<^verbatim>\<open>getNodes\<close>; for a penalty after a penalty the end would
  be \<^verbatim>\<open>undefined\<close>, and the model stops with \<open>UndefinedNumber\<close>.
\<close>

fun breakLinesLoop ::
    "layoutFn \<Rightarrow> glyphForFn \<Rightarrow> attributedString \<Rightarrow> knode list \<Rightarrow> nat list \<Rightarrow> int
       \<Rightarrow> attributedString list \<Rightarrow> error + (int \<times> attributedString list)" where
  "breakLinesLoop layout glyphFor attributedString nodes [] start acc = Inr (start, acc)"
| "breakLinesLoop layout glyphFor attributedString nodes (breakPoint # breaks) start acc =
     (if int breakPoint = int (length nodes) - 1 then
        breakLinesLoop layout glyphFor attributedString nodes breaks start acc
      else
        case jsNth nodes (int breakPoint) of
          None \<Rightarrow> Inl TypeError
        | Some node \<Rightarrow>
            if isPenalty node then
              (case jsNth nodes (int breakPoint - 1) of
                 None \<Rightarrow> Inl TypeError
               | Some prevNode \<Rightarrow>
                   (case nodeEnd prevNode of
                      None \<Rightarrow> Inl UndefinedNumber
                    | Some end' \<Rightarrow>
                        (let line = slice layout start end' attributedString
                         in case insertGlyph layout glyphFor (int (length (a_string line)))
                                   HYPHEN line of
                              Inl e \<Rightarrow> Inl e
                            | Inr line' \<Rightarrow>
                                breakLinesLoop layout glyphFor attributedString nodes breaks
                                  end' (acc @ [line']))))
            else
              (let end' = (case nodeEnd node of None \<Rightarrow> 0 | Some e \<Rightarrow> e);
                   line = slice layout start end' attributedString
               in breakLinesLoop layout glyphFor attributedString nodes breaks end'
                    (acc @ [line])))"

definition breakLines ::
    "layoutFn \<Rightarrow> glyphForFn \<Rightarrow> attributedString \<Rightarrow> knode list \<Rightarrow> nat list
       \<Rightarrow> error + attributedString list" where
  "breakLines layout glyphFor attributedString nodes breaks =
     (case breakLinesLoop layout glyphFor attributedString nodes breaks 0 [] of
        Inl e \<Rightarrow> Inl e
      | Inr (start, lines) \<Rightarrow>
          Inr (lines @ [slice layout start (int (length (a_string attributedString)))
                          attributedString]))"

subsection \<open>The line breaker\<close>

definition TOLERANCE_STEPS :: rat where "TOLERANCE_STEPS = 5"
definition TOLERANCE_LIMIT :: rat where "TOLERANCE_LIMIT = 50"

text \<open>
  The \<^verbatim>\<open>while\<close> loop of \<^verbatim>\<open>linebreaker\<close> that tries again with a higher tolerance. It
  returns the last tolerance and the breaks.
\<close>

function escalate :: "knode list \<Rightarrow> rat list \<Rightarrow> rat \<Rightarrow> nat list \<Rightarrow> rat \<times> nat list" where
  "escalate nodes availableWidths tolerance breaks =
     (if length breaks = 0 \<and> tolerance < TOLERANCE_LIMIT then
        escalate nodes availableWidths (tolerance + TOLERANCE_STEPS)
          (linebreak nodes availableWidths (tolerance + TOLERANCE_STEPS))
      else (tolerance, breaks))"
  by pat_completeness auto
termination
  by (relation "measure (\<lambda>(nodes, widths, tolerance, breaks).
                   nat \<lceil>TOLERANCE_LIMIT - tolerance\<rceil>)")
    (auto simp: TOLERANCE_LIMIT_def TOLERANCE_STEPS_def, linarith)

declare escalate.simps [simp del]

definition chooseBreaks :: "knode list \<Rightarrow> rat list \<Rightarrow> rat \<Rightarrow> nat list" where
  "chooseBreaks nodes availableWidths tolerance0 =
     (let breaks = snd (escalate nodes availableWidths tolerance0
                          (linebreak nodes availableWidths tolerance0))
      in if length breaks = 0 \<or> (length breaks = 1 \<and> breaks ! 0 = 0)
         then applyBestFit nodes availableWidths else breaks)"

definition linebreaker ::
    "layoutFn \<Rightarrow> glyphForFn \<Rightarrow> layoutOptions \<Rightarrow> attributedString \<Rightarrow> rat list
       \<Rightarrow> error + attributedString list" where
  "linebreaker layout glyphFor options attributedString availableWidths =
     (let tolerance = ratOr (o_tolerance options) 4;
          attributes = getAttributes attributedString;
          nodes = getNodes attributedString attributes options;
          breaks = chooseBreaks nodes availableWidths tolerance
      in breakLines layout glyphFor attributedString nodes (jsSlice 1 None breaks))"

text \<open>
  The breaks of the first tolerance of a list at which \<^verbatim>\<open>linebreak\<close> finds any, to say
  which tolerances the loop tries.
\<close>

fun tryTolerances :: "knode list \<Rightarrow> rat list \<Rightarrow> rat list \<Rightarrow> nat list" where
  "tryTolerances nodes availableWidths [] = []"
| "tryTolerances nodes availableWidths (t # ts) =
     (if linebreak nodes availableWidths t \<noteq> [] then linebreak nodes availableWidths t
      else tryTolerances nodes availableWidths ts)"

section \<open>Text layout: the justification engine\<close>


datatype priority = KASHIDA_PRIORITY | WHITESPACE_PRIORITY | LETTER_PRIORITY | NULL_PRIORITY


record factor =
  f_before :: rat
  f_after :: rat
  f_priority :: priority
  f_unconstrained :: bool






























subsection \<open>Notions used to state and prove what justification does\<close>









subsection \<open>Glyph indices as shaping produces them\<close>

text \<open>
  \<^verbatim>\<open>resolve\<close> numbers the glyphs of a shaped run: the first character has glyph index 0
  and the index of each further character is that of the character before it (the same
  glyph, a ligature) or one more. \<open>endGlyphs\<close> names the glyphs that \<^verbatim>\<open>slice$1\<close> makes
  for a ligature cut by the end of the slice.
\<close>

definition wfIndices :: "int list \<Rightarrow> bool" where
  "wfIndices gi =
     (case gi of [] \<Rightarrow> True
      | head # rest \<Rightarrow> head = 0 \<and> list_all (\<lambda>(a, b). b = a \<or> b = a + 1) (zip gi rest))"

definition endGlyphs :: "layoutFn \<Rightarrow> int \<Rightarrow> run \<Rightarrow> glyph list" where
  "endGlyphs layout j run =
     slice2 layout 0 (Some (int (offset j run))) (getFont run)
       (jsNth (orEmpty (r_glyphs run)) (glyphIndexAt j run))"

subsection \<open>Example strings\<close>

definition noLayout :: layoutFn where
  "noLayout f codePoints = []"

definition someGlyphFor :: glyphForFn where
  "someGlyphFor f codePoint =
     \<lparr>g_id = codePoint, g_codePoints = [codePoint], g_advanceWidth = 500,
      g_isLigature = False, g_isMark = False\<rparr>"

definition ligature :: glyph where
  "ligature = \<lparr>g_id = 7, g_codePoints = [102, 105], g_advanceWidth = 500,
               g_isLigature = True, g_isMark = False\<rparr>"

definition plainGlyph :: "nat \<Rightarrow> glyph" where
  "plainGlyph c = \<lparr>g_id = c, g_codePoints = [c], g_advanceWidth = 250,
                   g_isLigature = False, g_isMark = False\<rparr>"

definition advance :: "rat \<Rightarrow> position" where
  "advance x = \<lparr>xAdvance = x, yAdvance = 0, xOffset = 0, yOffset = 0\<rparr>"

definition fi :: attributedString where
  "fi = \<lparr>a_string = ''fi'',
         a_runs = [\<lparr>r_start = 0, r_end = 2, r_attributes = Map.empty,
                    r_glyphIndices = Some [0, 0], r_glyphs = Some [ligature],
                    r_positions = Some [advance 6]\<rparr>],
         a_syllables = [''fi'']\<rparr>"

definition fiAndX :: attributedString where
  "fiAndX = \<lparr>a_string = ''fi x'',
          a_runs = [\<lparr>r_start = 0, r_end = 4, r_attributes = Map.empty,
                     r_glyphIndices = Some [0, 0, 1, 2],
                     r_glyphs = Some [ligature, plainGlyph 32, plainGlyph 120],
                     r_positions = Some [advance 6, advance 3, advance 5]\<rparr>],
          a_syllables = [''fi'', '' '', ''x'']\<rparr>"

text \<open>
  Two words with narrow glue and a third that does not fit on their line: the only set of
  breaks stretches the glue of the first line by 51 times its stretchability.
\<close>

definition narrowGlue :: "knode list" where
  "narrowGlue = [Box 24 0 2 False, Glue 1 2 3 1 0, Box 24 3 5 False, Glue 1 5 6 1 0,
                 Box 60 6 9 True, Glue 0 9 9 infinity 0, Penalty 0 (- infinity) 1]"

definition noOptions :: layoutOptions where
  "noOptions = \<lparr>o_tolerance = None, o_hyphenationPenalty = None\<rparr>"

subsection \<open>Example lines\<close>









section \<open>Orphan and widow scenario\<close>

lemma lineIndexLoop_le: "lineIndexLoop ls h i y \<le> i + length ls"
  by (induction ls h i y rule: lineIndexLoop.induct) auto

text \<open>
  Claim C2, as the code has it. A text node of exactly five lines with \<open>orphans = 2\<close> and
  \<open>widows = 2\<close> (set, or left to the default) that is split at a height with room for exactly
  three of its lines breaks at line index 3: lines 0..2 stay on the current fragment and
  lines 3..4 move to the next one.
\<close>

theorem getLineBreak_five_lines:
  assumes "length (n_lines node) = 5"
    and "orDefault (p_orphans (n_props node)) 2 = 2"
    and "orDefault (p_widows (n_props node)) 2 = 2"
    and "lineIndexAtHeight node (height - b_top (n_box node)) = 3"
  shows "getLineBreak node height = 3
     \<and> n_lines (fst (splitText node height)) = take 3 (n_lines node)
     \<and> n_lines (snd (splitText node height)) = drop 3 (n_lines node)"
  using assms by (simp add: getLineBreak_def splitText_def Let_def)


theorem getLineBreak_five_lines_witness:
  "length (n_lines fiveLines) = 5
   \<and> orDefault (p_orphans (n_props fiveLines)) 2 = 2
   \<and> orDefault (p_widows (n_props fiveLines)) 2 = 2
   \<and> lineIndexAtHeight fiveLines (30 - b_top (n_box fiveLines)) = 3
   \<and> getLineBreak fiveLines 30 = 3
   \<and> map l_string (n_lines (fst (splitText fiveLines 30))) = [''one'', ''two'', ''three'']
   \<and> map l_string (n_lines (snd (splitText fiveLines 30))) = [''four'', ''five'']"
proof -
  have h1: "length (n_lines fiveLines) = 5"
    by (simp add: fiveLines_def)
  have h2: "orDefault (p_orphans (n_props fiveLines)) 2 = 2"
    by (simp add: fiveLines_def noProps_def orDefault_def)
  have h3: "orDefault (p_widows (n_props fiveLines)) 2 = 2"
    by (simp add: fiveLines_def noProps_def orDefault_def)
  have h4: "lineIndexAtHeight fiveLines (30 - b_top (n_box fiveLines)) = 3"
    by (simp add: fiveLines_def lineIndexAtHeight_def boxAt_def)
  have ls: "n_lines fiveLines =
     [\<lparr>l_string = ''one'', l_height = 10\<rparr>, \<lparr>l_string = ''two'', l_height = 10\<rparr>,
      \<lparr>l_string = ''three'', l_height = 10\<rparr>, \<lparr>l_string = ''four'', l_height = 10\<rparr>,
      \<lparr>l_string = ''five'', l_height = 10\<rparr>]"
    by (simp add: fiveLines_def)
  from getLineBreak_five_lines [OF h1 h2 h3 h4] h1 h2 h3 h4 show ?thesis
    by (simp add: ls)
qed

text \<open>
  The claim as the spec words it (the break at line index 2, lines 2..4 moved) fails on the
  five-line paragraph split at height 30, which has room for exactly three lines.
\<close>

theorem getLineBreak_five_lines_not_two:
  "lineIndexAtHeight fiveLines 30 = 3
   \<and> getLineBreak fiveLines 30 \<noteq> 2
   \<and> n_lines (snd (splitText fiveLines 30)) \<noteq> drop 2 (n_lines fiveLines)"
  by (simp add: fiveLines_def lineIndexAtHeight_def getLineBreak_def splitText_def
        boxAt_def noProps_def orDefault_def Let_def)

section \<open>Fixed nodes\<close>

text \<open>
  Claim C8 at a failing input. A node that cannot wrap and is taller than the content area
  ends the loop of \<^verbatim>\<open>splitNodes\<close>: it stays on the current page and every later node,
  fixed or not, goes to the next page only. The fixed footer after the tall image is
  therefore missing from the current page, while the other two branches that end the loop
  add \<^verbatim>\<open>futureFixedNodes\<close> to the current page.
\<close>

theorem splitNodes_fixed_after_unwrappable:
  "isFixed footer
   \<and> splitNodes 800 800 [tallImage, footer] = ([tallImage], [footer])
   \<and> footer \<notin> set (fst (splitNodes 800 800 [tallImage, footer]))"
  by (simp add: splitNodes_def tallImage_def footer_def isFixed_def noProps_def boxAt_def
        getTop_def getWrap_def NON_WRAP_TYPES_def shouldBreak_def Let_def)

section \<open>Termination of the pagination loop\<close>

text \<open>
  \<^verbatim>\<open>splitPage\<close> returns no continuation page when the children left for the next page are
  none or all fixed: copies of fixed nodes alone never make a further page.
\<close>

lemma splitPage_next_None:
  assumes "splitNodes (getWrapArea pg) (getContentArea pg) (pg_children (dynamic k pg))
             = (cur, nxt)"
    and "nxt = [] \<or> allFixed nxt"
  shows "splitPage relayout dynamic pg k
           = (relayout (pg\<lparr>pg_box_height := Some (pg_style_height pg), pg_children := cur\<rparr>),
              None)"
  using assms by (auto simp: splitPage_def Let_def)

text \<open>
  The split of \<open>headed\<close> and of its continuation page. The header is fixed and goes to both
  pages. The heading fits, but the end of its presence, 110, is beyond the page, and its top,
  10, is greater than its top margin, so \<^verbatim>\<open>shouldBreak\<close> holds: the heading and the body
  move to the next page. Laid out again, the next page has the heading below the header as
  before.
\<close>

lemma splitPage_headed:
  "splitPage restack noRender headed k
     = (restack (headed\<lparr>pg_children := [header]\<rparr>), Some headedNext)"
  by (simp add: splitPage_def restack_def noRender_def headed_def headedNext_def header_def
      heading_def body_def splitNodes_def getWrapArea_def getContentArea_def orElse0_def
      truthy_def isFixed_def noProps_def boxAt_def getTop_def getWrap_def NON_WRAP_TYPES_def
      shouldBreak_def getEndOfPresence_def getFurthestEnd_def getEndOfMinPresenceAhead_def
      getMinPresenceAhead_def getBreak_def moveNextBreak_def allFixed_def Let_def)

lemma splitPage_headedNext:
  "splitPage restack noRender headedNext k
     = (restack (headedNext\<lparr>pg_box_height := Some 100, pg_children := [header]\<rparr>),
        Some headedNext)"
  by (simp add: splitPage_def restack_def noRender_def headed_def headedNext_def header_def
      heading_def body_def splitNodes_def getWrapArea_def getContentArea_def orElse0_def
      truthy_def isFixed_def noProps_def boxAt_def getTop_def getWrap_def NON_WRAP_TYPES_def
      shouldBreak_def getEndOfPresence_def getFurthestEnd_def getEndOfMinPresenceAhead_def
      getMinPresenceAhead_def getBreak_def moveNextBreak_def allFixed_def Let_def)

text \<open>The loop does not return from a state whose next page is \<open>headedNext\<close>.\<close>

lemma paginateLoop_headedNext:
  assumes "paginateLoop relayout dynamic pageNumber pages nextPage = Some result"
  shows "\<not> (relayout = restack \<and> dynamic = noRender \<and> nextPage = Some headedNext)"
proof (rule paginateLoop.raw_induct
    [where P = "\<lambda>relayout dynamic pageNumber pages nextPage result.
                  \<not> (relayout = restack \<and> dynamic = noRender \<and> nextPage = Some headedNext)",
     OF _ assms])
  fix f :: "(page \<Rightarrow> page) \<Rightarrow> (nat \<Rightarrow> page \<Rightarrow> page) \<Rightarrow> nat \<Rightarrow> page list \<Rightarrow> page option
              \<Rightarrow> page list option"
    and relayout dynamic pageNumber pages nextPage result
  assume IH: "\<And>relayout dynamic pageNumber pages nextPage result.
      f relayout dynamic pageNumber pages nextPage = Some result \<Longrightarrow>
      \<not> (relayout = restack \<and> dynamic = noRender \<and> nextPage = Some headedNext)"
    and step: "(case nextPage of
        None \<Rightarrow> Some pages
      | Some np \<Rightarrow>
          (case splitPage relayout dynamic np (pageNumber + length pages) of
             (current, next) \<Rightarrow> f relayout dynamic pageNumber (pages @ [current]) next))
      = Some result"
  show "\<not> (relayout = restack \<and> dynamic = noRender \<and> nextPage = Some headedNext)"
  proof
    assume a: "relayout = restack \<and> dynamic = noRender \<and> nextPage = Some headedNext"
    with step have "f restack noRender pageNumber
        (pages @ [restack (headedNext\<lparr>pg_box_height := Some 100, pg_children := [header]\<rparr>)])
        (Some headedNext) = Some result"
      by (simp add: splitPage_headedNext)
    from IH [OF this] show False by simp
  qed
qed

text \<open>
  Claim C10 at a failing input. The content of \<open>headed\<close> that is not fixed is 510 high and
  the page holds 90 of it below the header, yet \<^verbatim>\<open>paginate\<close> does not return: every split
  leaves the header alone on the current page and hands the heading and the body, which are
  not fixed, to a next page that is laid out like the one before. \<^verbatim>\<open>shouldBreak\<close> means
  to skip a break that cannot improve the presence of a child (``if the child is already at
  the top of the page''), but tests it by \<^verbatim>\<open>child.box.top > child.box.marginTop\<close>, which
  a child below a fixed node always passes.
\<close>

theorem paginate_headed_never_returns:
  "paginate restack noRender (Some headed) 1 = None"
proof (cases "paginate restack noRender (Some headed) 1")
  case None
  then show ?thesis .
next
  case (Some pages)
  have "pg_wrap headed \<noteq> Some False" by (simp add: headed_def)
  with Some have "paginateLoop restack noRender 1 [restack (headed\<lparr>pg_children := [header]\<rparr>)]
                    (Some headedNext) = Some pages"
    by (simp add: paginate_def splitPage_headed)
  from paginateLoop_headedNext [OF this] show ?thesis by simp
qed


section \<open>Flatten is idempotent\<close>

lemma flattenLoop_acc:
  "flattenLoop ps res start attrs stack = res @ flattenLoop ps [] start attrs stack"
proof (induction ps arbitrary: res start attrs stack)
  case Nil
  then show ?case by simp
next
  case (Cons p ps)
  obtain ty offset ident attributes i where p: "p = (ty, offset, (ident, attributes), i)"
    by (metis prod.exhaust)
  show ?case
    unfolding p
    apply (cases ty)
    apply (simp_all add: Let_def)
    using Cons.IH 
     apply (metis append.assoc)
    using Cons.IH 
    apply (metis append.assoc)
    done
qed

lemma chainFrom_None: "chainFrom (Some x) rs \<Longrightarrow> chainFrom None rs"
  by (cases rs) (auto split: if_splits)

lemma chainFrom_sentinel: "chainFrom (Some q) rs \<Longrightarrow> -1 < q \<Longrightarrow> chainFrom (Some (-1)) rs"
  by (cases rs) (auto split: if_splits)

lemma plain_regularRun: "plainRun (regularRun a b c)"
  by (simp add: plainRun_def regularRun_def)

lemma flattenLoop_chain:
  "sorted (map pointKey ps) \<Longrightarrow>
   (case s of None \<Rightarrow> True | Some x \<Rightarrow> \<forall>p\<in>set ps. x \<le> fst (pointKey p)) \<Longrightarrow>
   chainFrom s (flattenLoop ps [] (startVar s) attrs stack)"
proof (induction ps arbitrary: s attrs stack)
  case Nil
  then show ?case by simp
next
  case (Cons p ps)
  obtain ty offset ident attributes i where p: "p = (ty, offset, (ident, attributes), i)"
    by (metis prod.exhaust)
  have later: "\<forall>q\<in>set ps. offset \<le> fst (pointKey q)"
    using Cons.prems(1) by (auto simp: p pointKey_def less_eq_prod_def)
  have srt: "sorted (map pointKey ps)" using Cons.prems(1) by simp
  have IH: "\<And>attrs stack. chainFrom (Some offset) (flattenLoop ps [] offset attrs stack)"
    using Cons.IH[OF srt, of "Some offset"] later by (simp add: startVar_def)
  have nopush: "\<exists>A S. flattenLoop (p # ps) [] start attrs stack = flattenLoop ps [] offset A S"
    if "start = -1 \<or> \<not> start < offset" for start
    using that unfolding p by (cases ty) (auto simp: Let_def)
  have push: "\<exists>A S. flattenLoop (p # ps) [] start attrs stack
                 = regularRun start offset attrs # flattenLoop ps [] offset A S"
    if "start \<noteq> -1" "start < offset" for start
  proof (cases ty)
    case PStart
    then show ?thesis using that unfolding p
      by (simp add: Let_def flattenLoop_acc [of ps "[regularRun start offset attrs]"]) blast
  next
    case PEnd
    then show ?thesis using that unfolding p
      by (simp add: Let_def flattenLoop_acc [of ps "[regularRun start offset attrs]"]) blast
  qed
  show ?case
  proof (cases s)
    case None
    from nopush [of "-1"] obtain A S where
      "flattenLoop (p # ps) [] (-1) attrs stack = flattenLoop ps [] offset A S" by blast
    with chainFrom_None [OF IH [of A S]] show ?thesis
      by (simp add: None startVar_def)
  next
    case (Some x)
    with Cons.prems(2) have xo: "x \<le> offset" by (simp add: p pointKey_def)
    show ?thesis
    proof (cases "x \<noteq> -1 \<and> x < offset")
      case True
      with push [of x] obtain A S where
        "flattenLoop (p # ps) [] x attrs stack
           = regularRun x offset attrs # flattenLoop ps [] offset A S" by blast
      with True IH [of A S] show ?thesis
        by (simp add: Some startVar_def plainRun_def regularRun_def)
    next
      case False
      with nopush [of x] obtain A S where
        e: "flattenLoop (p # ps) [] x attrs stack = flattenLoop ps [] offset A S" by blast
      from False xo have "x = offset \<or> (x = -1 \<and> -1 < offset)" by auto
      with e IH [of A S] show ?thesis
        by (auto simp: Some startVar_def dest: chainFrom_sentinel)
    qed
  qed
qed

lemma pts_Cons: "pts k (lr # lrs) = pointsOf k lr @ pts (Suc k) lrs"
  by (simp add: pts_def)

lemma pts_Nil: "pts k [] = []"
  by (simp add: pts_def)

lemma pts_bounds:
  "chainFrom s (map snd lrs) \<Longrightarrow> p \<in> set (pts k lrs) \<Longrightarrow>
   k \<le> snd (pointKey p) \<and> (case s of None \<Rightarrow> True | Some x \<Rightarrow> x \<le> fst (pointKey p))"
proof (induction lrs arbitrary: s k)
  case Nil
  then show ?case by (simp add: pts_Nil)
next
  case (Cons lr lrs)
  from Cons.prems(1) have c: "chainFrom (Some (r_end (snd lr))) (map snd lrs)"
    and lt: "r_start (snd lr) < r_end (snd lr)"
    and st: "case s of None \<Rightarrow> True | Some x \<Rightarrow> x \<le> r_start (snd lr)"
    by (auto split: option.splits if_splits)
  from Cons.prems(2) consider "p \<in> set (pointsOf k lr)" | "p \<in> set (pts (Suc k) lrs)"
    by (auto simp: pts_Cons)
  then show ?case
  proof cases
    case 1
    with lt st show ?thesis
      by (auto simp: pointsOf_def pointKey_def split: option.splits)
  next
    case 2
    from Cons.IH [OF c 2] lt st show ?thesis
      by (auto split: option.splits)
  qed
qed

lemma pts_sorted:
  "chainFrom s (map snd lrs) \<Longrightarrow> sorted (map pointKey (pts k lrs))"
proof (induction lrs arbitrary: s k)
  case Nil
  then show ?case by (simp add: pts_Nil)
next
  case (Cons lr lrs)
  from Cons.prems(1) have c: "chainFrom (Some (r_end (snd lr))) (map snd lrs)"
    and lt: "r_start (snd lr) < r_end (snd lr)"
    by (auto split: option.splits if_splits)
  have b: "\<forall>p\<in>set (pts (Suc k) lrs). Suc k \<le> snd (pointKey p) \<and> r_end (snd lr) \<le> fst (pointKey p)"
    using pts_bounds [OF c] by fastforce
  from Cons.IH [OF c] b lt show ?case
    by (auto simp: pts_Cons pointsOf_def pointKey_def sorted_append less_eq_prod_def)
qed

lemma flattenLoop_fix:
  "chainFrom s (map snd lrs) \<Longrightarrow>
   flattenLoop (pts k lrs) [] (startVar s) Map.empty [] = map snd lrs"
proof (induction lrs arbitrary: s k)
  case Nil
  then show ?case by (simp add: pts_Nil)
next
  case (Cons lr lrs)
  let ?r = "snd lr"
  from Cons.prems(1) have c: "chainFrom (Some (r_end ?r)) (map snd lrs)"
    and lt: "r_start ?r < r_end ?r" and pl: "plainRun ?r"
    and st: "case s of None \<Rightarrow> r_start ?r \<noteq> -1
       | Some x \<Rightarrow> if x = -1 then -1 < r_start ?r else r_start ?r = x"
    by (auto split: option.splits if_splits)
  have ne: "r_start ?r \<noteq> -1" using st by (auto split: option.splits if_splits)
  have nopush: "startVar s = -1 \<or> \<not> startVar s < r_start ?r"
    using st by (auto simp: startVar_def split: option.splits if_splits)
  have rr: "regularRun (r_start ?r) (r_end ?r) (r_attributes ?r) = ?r"
    using pl by (simp add: regularRun_def plainRun_def)
  have "flattenLoop (pts k (lr # lrs)) [] (startVar s) Map.empty []
          = ?r # flattenLoop (pts (Suc k) lrs) [] (r_end ?r) Map.empty []"
    using nopush ne lt rr
    by (auto simp: pts_Cons pointsOf_def Let_def flattenLoop_acc [of _ "[_]"])
  with Cons.IH [OF c, of "Suc k"] show ?case
    by (simp add: startVar_def)
qed

lemma generatePoints_pts: "generatePoints lrs = sortPoints (pts 0 lrs)"
  by (simp add: generatePoints_def pts_def)

lemma flattenRegularRuns_chain: "chainFrom None (flattenRegularRuns lrs)"
  using flattenLoop_chain [of "generatePoints lrs" None Map.empty "[]"]
  by (simp add: flattenRegularRuns_def generatePoints_def sortPoints_def startVar_def)

lemma flattenRegularRuns_fix:
  assumes "chainFrom None (map snd lrs)"
  shows "flattenRegularRuns lrs = map snd lrs"
proof -
  have "generatePoints lrs = pts 0 lrs"
    using pts_sorted [OF assms, of 0]
    by (simp add: generatePoints_pts sortPoints_def sort_key_id_if_sorted)
  with flattenLoop_fix [OF assms, of 0] show ?thesis
    by (simp add: flattenRegularRuns_def startVar_def)
qed

lemma chainFrom_lower:
  "chainFrom (Some x) rs \<Longrightarrow> r \<in> set rs \<Longrightarrow> x \<le> r_start r \<and> r_start r < r_end r"
proof (induction rs arbitrary: x)
  case Nil
  then show ?case by simp
next
  case (Cons a rs)
  from Cons.prems(1) have c: "chainFrom (Some (r_end a)) rs" and lt: "r_start a < r_end a"
    and xa: "x \<le> r_start a"
    by (auto split: if_splits)
  from Cons.prems(2) consider "r = a" | "r \<in> set rs" by auto
  then show ?case
  proof cases
    case 1
    with lt xa show ?thesis by simp
  next
    case 2
    from Cons.IH [OF c 2] lt xa show ?thesis by simp
  qed
qed

lemma chainFrom_props:
  "chainFrom s rs \<Longrightarrow>
   sorted (map runKey rs) \<and> distinct (map r_start rs) \<and> (\<forall>r\<in>set rs. \<not> isEmpty r)"
proof (induction rs arbitrary: s)
  case Nil
  then show ?case by simp
next
  case (Cons a rs)
  from Cons.prems have c: "chainFrom (Some (r_end a)) rs" and lt: "r_start a < r_end a"
    by (auto split: if_splits)
  have "\<forall>r\<in>set rs. r_end a \<le> r_start r" using chainFrom_lower [OF c] by blast
  with Cons.IH [OF c] lt show ?case
    by (fastforce simp: runKey_def isEmpty_def less_eq_prod_def)
qed

lemma mergeRuns_snoc:
  "mergeRuns (xs @ [y]) = Some (y\<lparr>r_attributes :=
      (case mergeRuns xs of None \<Rightarrow> Map.empty | Some a \<Rightarrow> r_attributes a) ++ r_attributes y\<rparr>)"
  by (simp add: mergeRuns_def)

lemma mergeRuns_single: "mergeRuns [e] = Some e"
  using mergeRuns_snoc [of "[]" e] by (simp add: mergeRuns_def)

lemma mergeRuns_nonempty:
  assumes "ys \<noteq> []"
  shows "\<exists>a. mergeRuns ys = Some ((last ys)\<lparr>r_attributes := a\<rparr>)"
proof -
  from assms obtain xs y where "ys = xs @ [y]" by (metis rev_exhaust)
  then show ?thesis by (auto simp: mergeRuns_snoc)
qed

lemma groupKeys_distinct: "distinct (groupKeys X)"
  by (auto simp: groupKeys_def)

lemma groupKeys_set: "set (groupKeys X) = r_start ` set X"
  by (auto simp: groupKeys_def)

lemma mergeRuns_group:
  assumes "k \<in> r_start ` set X"
  shows "mergeRuns (filter (\<lambda>r. r_start r = k) X) = Some (pick X k)
         \<and> r_start (pick X k) = k
         \<and> ((\<forall>x\<in>set X. isEmpty x) \<longrightarrow> isEmpty (pick X k))"
proof -
  let ?g = "filter (\<lambda>r. r_start r = k) X"
  from assms have ne: "?g \<noteq> []" by (auto simp: filter_empty_conv)
  from mergeRuns_nonempty [OF ne] obtain a where
    m: "mergeRuns ?g = Some ((last ?g)\<lparr>r_attributes := a\<rparr>)" by blast
  from ne have "last ?g \<in> set ?g" by (rule last_in_set)
  then have "r_start (last ?g) = k" "last ?g \<in> set X" by auto
  with m show ?thesis by (auto simp: pick_def isEmpty_def)
qed

lemma flattenEmptyRuns_map:
  "flattenEmptyRuns X = map (pick X) (groupKeys X)"
proof -
  have "set ks \<subseteq> r_start ` set X \<Longrightarrow>
        List.map_filter mergeRuns (map (\<lambda>k. filter (\<lambda>r. r_start r = k) X) ks) = map (pick X) ks"
    for ks
  proof (induction ks)
    case Nil
    then show ?case by simp
  next
    case (Cons k ks)
    then have "k \<in> r_start ` set X" by simp
    from mergeRuns_group [OF this] Cons show ?case
      by simp
  qed
  then show ?thesis
    by (simp add: flattenEmptyRuns_def groupEmptyRuns_def groupKeys_set)
qed

lemma flattenEmptyRuns_starts: "map r_start (flattenEmptyRuns X) = groupKeys X"
proof -
  have "\<forall>k\<in>set (groupKeys X). r_start (pick X k) = k"
    using mergeRuns_group [of _ X] by (simp add: groupKeys_set)
  then show ?thesis
    by (simp add: flattenEmptyRuns_map map_idI)
qed

lemma flattenEmptyRuns_isEmpty:
  "\<forall>x\<in>set X. isEmpty x \<Longrightarrow> e \<in> set (flattenEmptyRuns X) \<Longrightarrow> isEmpty e"
  using mergeRuns_group [of _ X]
  by (auto simp: flattenEmptyRuns_map groupKeys_set)

lemma filter_key_single:
  "distinct (map f xs) \<Longrightarrow> x \<in> set xs \<Longrightarrow> filter (\<lambda>y. f y = f x) xs = [x]"
proof (induction xs)
  case Nil
  then show ?case by simp
next
  case (Cons a xs)
  show ?case
  proof (cases "x = a")
    case True
    with Cons.prems have "f a \<notin> f ` set xs" by simp
    then have "filter (\<lambda>y. f y = f a) xs = []"
      by (induction xs) auto
    with True show ?thesis by simp
  next
    case False
    with Cons show ?thesis by auto
  qed
qed

lemma flattenEmptyRuns_mset:
  assumes d: "distinct (map r_start Y)"
  shows "mset (flattenEmptyRuns Y) = mset Y"
proof -
  have pk: "pick Y (r_start y) = y" if "y \<in> set Y" for y
    using filter_key_single [OF d that] by (simp add: pick_def mergeRuns_single)
  have "set (groupKeys Y) = set (map r_start Y)"
    by (simp add: groupKeys_set)
  with d groupKeys_distinct [of Y] have "mset (groupKeys Y) = mset (map r_start Y)"
    using set_eq_iff_mset_eq_distinct by blast
  then have "mset (map (pick Y) (groupKeys Y)) = mset (map (pick Y) (map r_start Y))"
    by (metis mset_map)
  also have "map (pick Y) (map r_start Y) = Y"
    using pk by (simp add: map_idI)
  finally show ?thesis by (simp add: flattenEmptyRuns_map)
qed

text \<open>
  Claim C7. \<^verbatim>\<open>flatten(flatten(runs))\<close> equals \<^verbatim>\<open>flatten(runs)\<close>, for every list of runs
  and whatever the identities of the attributes objects are, in the first call and in the
  second: \<open>lrs\<close> is the result of the first call, with any identities given to the
  attributes objects of its runs.
\<close>

theorem flatten_idempotent:
  assumes "map snd lrs = flatten rs"
  shows "flatten lrs = flatten rs"
proof -
  define E where "E = flattenEmptyRuns (filter isEmpty (map snd rs))"
  define R where "R = flattenRegularRuns (filter (\<lambda>lr. \<not> isEmpty (snd lr)) rs)"
  have F: "flatten rs = sortRuns (E @ R)"
    by (simp add: flatten_def E_def R_def)
  have cR: "chainFrom None R" unfolding R_def by (rule flattenRegularRuns_chain)
  from chainFrom_props [OF cR] have sR: "sorted (map runKey R)"
    and dR: "distinct (map r_start R)" and nR: "\<forall>r\<in>set R. \<not> isEmpty r" by auto
  have eE: "\<forall>e\<in>set E. isEmpty e"
  proof
    fix e assume "e \<in> set E"
    then show "isEmpty e"
      unfolding E_def by (rule flattenEmptyRuns_isEmpty [rotated]) simp
  qed
  have dE: "distinct (map r_start E)"
    unfolding E_def by (simp add: flattenEmptyRuns_starts groupKeys_distinct)
  have key: "sortRuns xs = sort_key runKey xs" for xs
    by (simp add: sortRuns_def runKey_def [abs_def])
  have fE: "filter isEmpty E = E" "filter isEmpty R = []"
    using eE nR by (simp_all add: filter_id_conv filter_empty_conv)
  have fR: "filter (\<lambda>r. \<not> isEmpty r) E = []" "filter (\<lambda>r. \<not> isEmpty r) R = R"
    using eE nR by (simp_all add: filter_id_conv filter_empty_conv)
  have emp: "filter isEmpty (map snd lrs) = sortRuns E"
    by (simp add: assms F key filter_sort fE)
  have "map snd (filter (\<lambda>lr. \<not> isEmpty (snd lr)) lrs) = filter (\<lambda>r. \<not> isEmpty r) (map snd lrs)"
    by (simp add: filter_map comp_def)
  also have "\<dots> = sort_key runKey R"
    by (simp add: assms F key filter_sort fR)
  also have "\<dots> = R" using sR by (rule sort_key_id_if_sorted)
  finally have reg: "map snd (filter (\<lambda>lr. \<not> isEmpty (snd lr)) lrs) = R" .
  with cR have R2: "flattenRegularRuns (filter (\<lambda>lr. \<not> isEmpty (snd lr)) lrs) = R"
    using flattenRegularRuns_fix [of "filter (\<lambda>lr. \<not> isEmpty (snd lr)) lrs"] by simp
  have "mset (map r_start (sortRuns E)) = mset (map r_start E)"
    by (simp add: key)
  from mset_eq_imp_distinct_iff [OF this] dE
  have dE': "distinct (map r_start (sortRuns E))"
    by simp
  have mE: "mset (flattenEmptyRuns (sortRuns E)) = mset E"
    using flattenEmptyRuns_mset [OF dE'] by (simp add: key)
  have L: "flatten lrs = sort_key runKey (flattenEmptyRuns (sortRuns E) @ R)"
    by (simp add: flatten_def emp R2 key)
  have inj: "inj_on runKey (set (flattenEmptyRuns (sortRuns E) @ R))"
  proof -
    have se: "set (flattenEmptyRuns (sortRuns E)) = set E"
      using mE by (rule mset_eq_setD)
    have iE: "inj_on r_start (set E)" using dE by (simp add: distinct_map)
    have iR: "inj_on r_start (set R)" using dR by (simp add: distinct_map)
    show ?thesis
      unfolding inj_on_def
    proof (intro ballI impI)
      fix x y
      assume x: "x \<in> set (flattenEmptyRuns (sortRuns E) @ R)"
        and y: "y \<in> set (flattenEmptyRuns (sortRuns E) @ R)"
        and k: "runKey x = runKey y"
      from k have ks: "r_start x = r_start y" and ke: "r_end x = r_end y"
        by (simp_all add: runKey_def)
      then have ie: "isEmpty x = isEmpty y" by (simp add: isEmpty_def)
      from x y se consider "x \<in> set E" "y \<in> set E" | "x \<in> set R" "y \<in> set R"
        | "x \<in> set E" "y \<in> set R" | "x \<in> set R" "y \<in> set E" by auto
      then show "x = y"
      proof cases
        case 1
        with iE ks show ?thesis by (auto dest: inj_onD)
      next
        case 2
        with iR ks show ?thesis by (auto dest: inj_onD)
      next
        case 3
        with eE nR ie show ?thesis by auto
      next
        case 4
        with eE nR ie show ?thesis by auto
      qed
    qed
  qed
  have "sort_key runKey (flattenEmptyRuns (sortRuns E) @ R) = sort_key runKey (E @ R)"
  proof (rule sort_key_inj_key_eq)
    show "mset (flattenEmptyRuns (sortRuns E) @ R) = mset (sort_key runKey (E @ R))"
      by (simp add: mE)
    show "inj_on runKey (set (flattenEmptyRuns (sortRuns E) @ R))" by (rule inj)
    show "sorted (map runKey (sort_key runKey (E @ R)))" by simp
  qed
  with L F key show ?thesis by simp
qed

theorem flatten_idempotent_witness:
  "map snd (map (Pair (0::nat)) (flatten overlapping)) = flatten overlapping
   \<and> flatten (map (Pair (0::nat)) (flatten overlapping)) = flatten overlapping
   \<and> map (\<lambda>r. (r_start r, r_end r, r_attributes r ''color'', r_attributes r ''bold''))
        (flatten overlapping)
      = [(0, 2, Some (AStr ''red''), None), (2, 5, Some (AStr ''red''), Some (ABool True)),
         (3, 3, Some (AStr ''blue''), None), (5, 10, Some (AStr ''red''), None),
         (10, 12, None, None), (12, 14, None, None)]"
proof -
  have h: "map snd (map (Pair (0::nat)) (flatten overlapping)) = flatten overlapping"
    by (simp add: comp_def)
  have v: "map (\<lambda>r. (r_start r, r_end r, r_attributes r ''color'', r_attributes r ''bold''))
        (flatten overlapping)
      = [(0, 2, Some (AStr ''red''), None), (2, 5, Some (AStr ''red''), Some (ABool True)),
         (3, 3, Some (AStr ''blue''), None), (5, 10, Some (AStr ''red''), None),
         (10, 12, None, None), (12, 14, None, None)]"
    by code_simp
  from flatten_idempotent [OF h] h v show ?thesis by blast
qed


section \<open>Slice and concat\<close>

lemma wfIndices_step:
  assumes "wfIndices gi" "Suc k < length gi"
  shows "gi ! Suc k = gi ! k \<or> gi ! Suc k = gi ! k + 1"
proof -
  from assms obtain h rest where g: "gi = h # rest" by (cases gi) auto
  with assms have "list_all (\<lambda>(a, b). b = a \<or> b = a + 1) (zip gi rest)"
    by (auto simp: wfIndices_def)
  moreover have "k < length (zip gi rest)" using assms g by simp
  ultimately have "(\<lambda>(a, b). b = a \<or> b = a + 1) (zip gi rest ! k)"
    by (simp add: list_all_length)
  with assms g show ?thesis by simp
qed

lemma wfIndices_bounds:
  assumes "wfIndices gi"
  shows "k < length gi \<Longrightarrow> 0 \<le> gi ! k \<and> gi ! k \<le> int k"
proof (induction k)
  case 0
  with assms show ?case by (cases gi) (auto simp: wfIndices_def)
next
  case (Suc k)
  with wfIndices_step [OF assms, of k] show ?case by auto
qed

lemma wfIndices_mono:
  assumes "wfIndices gi"
  shows "l < length gi \<Longrightarrow> k \<le> l \<Longrightarrow> gi ! k \<le> gi ! l"
proof (induction l)
  case 0
  then show ?case by simp
next
  case (Suc l)
  show ?case
  proof (cases "k = Suc l")
    case True
    then show ?thesis by simp
  next
    case False
    with Suc have "gi ! k \<le> gi ! l" by simp
    with wfIndices_step [OF assms, of l] Suc.prems show ?thesis by auto
  qed
qed

lemma jsSlice_nonneg:
  "0 \<le> a \<Longrightarrow> 0 \<le> b \<Longrightarrow> jsSlice a (Some b) xs = take (nat b - nat a) (drop (nat a) xs)"
  by (auto simp: jsSlice_def jsIndex_def Let_def min_def)

lemma jsSlice_split:
  assumes "0 \<le> a" "a \<le> b" "b \<le> c"
  shows "jsSlice a (Some b) xs @ jsSlice b (Some c) xs = jsSlice a (Some c) xs"
proof -
  have "take (nat b - nat a) (drop (nat a) xs) @ take (nat c - nat b) (drop (nat b) xs)
        = take (nat c - nat a) (drop (nat a) xs)"
  proof -
    have "drop (nat b) xs = drop (nat b - nat a) (drop (nat a) xs)"
      using assms by simp
    moreover have "nat c - nat a = (nat b - nat a) + (nat c - nat b)"
      using assms by linarith
    ultimately show ?thesis by (simp add: take_add)
  qed
  with assms show ?thesis by (simp add: jsSlice_nonneg)
qed

lemma glyphIndexAt_alt:
  "glyphIndexAt index run =
     (case jsNth (orEmpty (r_glyphIndices run)) index of None \<Rightarrow> index | Some v \<Rightarrow> v)"
  by (simp add: glyphIndexAt_def orEmpty_def jsNth_def split: option.splits)

lemma glyphIndexAt_bounds:
  assumes "wfIndices (orEmpty (r_glyphIndices run))" "0 \<le> i" "i \<le> j"
  shows "0 \<le> glyphIndexAt i run \<and> glyphIndexAt i run \<le> glyphIndexAt j run"
proof -
  let ?gi = "orEmpty (r_glyphIndices run)"
  consider "j < int (length ?gi)" | "i < int (length ?gi)" "\<not> j < int (length ?gi)"
    | "\<not> i < int (length ?gi)" by linarith
  then show ?thesis
  proof cases
    case 1
    then have lj: "nat j < length ?gi" and li: "nat i < length ?gi" and ij: "nat i \<le> nat j"
      using assms by linarith+
    from wfIndices_mono [OF assms(1) lj ij] wfIndices_bounds [OF assms(1) li] 1 assms
    show ?thesis by (auto simp: glyphIndexAt_alt jsNth_def)
  next
    case 2
    then have "nat i < length ?gi" using assms by linarith
    from wfIndices_bounds [OF assms(1) this] 2 assms
    show ?thesis by (auto simp: glyphIndexAt_alt jsNth_def)
  next
    case 3
    with assms show ?thesis by (auto simp: glyphIndexAt_alt jsNth_def)
  qed
qed

lemma glyphIndexAt_zero:
  assumes "wfIndices (orEmpty (r_glyphIndices run))"
  shows "glyphIndexAt 0 run = 0"
  using assms by (cases "orEmpty (r_glyphIndices run)")
    (auto simp: glyphIndexAt_alt jsNth_def wfIndices_def)

lemma offset_zero: "offset 0 run = 0"
  by (simp add: offset_def jsSlice_def jsIndex_def Let_def split: option.splits)

lemma slice2_empty: "slice2 layout 0 (Some 0) font glyph = []"
  by (simp add: slice2_def split: option.splits)

lemma map_add_self: "m ++ m = m"
  by (rule ext) (simp add: map_add_def split: option.splits)

lemma normalize_id: "xs = [] \<or> hd xs = 0 \<Longrightarrow> normalize xs = xs"
  by (cases xs) (auto simp: normalize_def)

lemma normalize_Nil: "normalize [] = []"
  by (simp add: normalize_def)

lemma normalize_shift: "normalize (map (\<lambda>v. v + c) xs) = normalize xs"
  by (cases xs) (auto simp: normalize_def)

lemma wf_take_head: "wfIndices gi \<Longrightarrow> take n gi = [] \<or> hd (take n gi) = 0"
  by (cases gi; cases n) (auto simp: wfIndices_def)

lemma offset_step:
  assumes wf: "wfIndices (orEmpty (r_glyphIndices run))"
    and lig: "offset i run = 0" and i: "0 < i" "i < int (length (orEmpty (r_glyphIndices run)))"
  shows "orEmpty (r_glyphIndices run) ! nat i = orEmpty (r_glyphIndices run) ! (nat i - 1) + 1"
proof -
  let ?gi = "orEmpty (r_glyphIndices run)"
  obtain k where k: "nat i = Suc k" using i by (cases "nat i") auto
  have "filter (\<lambda>v. v = ?gi ! nat i) (take (nat i) ?gi) = []"
    using lig i by (simp add: offset_def jsNth_def jsSlice_nonneg Let_def)
  moreover have "?gi ! k \<in> set (take (nat i) ?gi)"
    using i k by (auto simp: in_set_conv_nth intro!: exI [of _ k])
  ultimately have "?gi ! k \<noteq> ?gi ! nat i"
    by (auto simp: filter_empty_conv)
  moreover have "Suc k < length ?gi" using i k by linarith
  from wfIndices_step [OF wf this] have "?gi ! Suc k = ?gi ! k \<or> ?gi ! Suc k = ?gi ! k + 1" .
  ultimately show ?thesis using k by auto
qed

lemma indices_join:
  assumes wf: "wfIndices (orEmpty (r_glyphIndices run))"
    and i0: "0 \<le> i" and ij: "i \<le> j" and lig: "offset i run = 0"
  shows "normalize
           (normalize (jsSlice 0 (Some i) (orEmpty (r_glyphIndices run)))
            @ map (\<lambda>v. v + (case jsLast (normalize (jsSlice 0 (Some i) (orEmpty (r_glyphIndices run))))
                               of None \<Rightarrow> 0 | Some l \<Rightarrow> l) + 1)
                (normalize (jsSlice i (Some j) (orEmpty (r_glyphIndices run)))))
         = normalize (jsSlice 0 (Some j) (orEmpty (r_glyphIndices run)))"
proof -
  let ?gi = "orEmpty (r_glyphIndices run)"
  define a where "a = nat i"
  define b where "b = nat j"
  have ab: "a \<le> b" using i0 ij by (simp add: a_def b_def)
  have A: "normalize (jsSlice 0 (Some i) ?gi) = take a ?gi"
    using i0 wf_take_head [OF wf, of a] by (simp add: jsSlice_nonneg a_def normalize_id)
  have J: "normalize (jsSlice 0 (Some j) ?gi) = take b ?gi"
    using i0 ij wf_take_head [OF wf, of b] by (simp add: jsSlice_nonneg b_def normalize_id)
  have B: "jsSlice i (Some j) ?gi = take (b - a) (drop a ?gi)"
    using i0 ij by (simp add: jsSlice_nonneg a_def b_def)
  have split: "take a ?gi @ take (b - a) (drop a ?gi) = take b ?gi"
    using ab by (metis le_add_diff_inverse take_add)
  have goal: "normalize
           (take a ?gi
            @ map (\<lambda>v. v + (case jsLast (take a ?gi) of None \<Rightarrow> 0 | Some l \<Rightarrow> l) + 1)
                (normalize (take (b - a) (drop a ?gi))))
         = take b ?gi"
  proof -
    consider "a = 0" | "0 < a" "length ?gi \<le> a" | "0 < a" "a < length ?gi" "b = a"
      | "0 < a" "a < length ?gi" "a < b" using ab by linarith
    then show ?thesis
    proof cases
      case 1
      then show ?thesis
        using wf_take_head [OF wf, of b]
        by (simp add: jsLast_def normalize_shift normalize_id)
    next
      case 2
      then show ?thesis
        using ab wf_take_head [OF wf, of a] by (simp add: normalize_Nil normalize_id)
    next
      case 3
      then show ?thesis
        using wf_take_head [OF wf, of a] by (simp add: normalize_Nil normalize_id)
    next
      case 4
      let ?raw = "take (b - a) (drop a ?gi)"
      have ne: "take a ?gi \<noteq> []" using 4 by auto
      have last: "last (take a ?gi) = ?gi ! (a - 1)"
        using 4 ne by (simp add: last_conv_nth min_def)
      have rawne: "?raw \<noteq> []" using 4 by auto
      have hd: "hd ?raw = ?gi ! a" using 4 by (simp add: hd_drop_conv_nth)
      have st: "?gi ! a = ?gi ! (a - 1) + 1"
        using offset_step [OF wf lig] 4 i0 by (simp add: a_def)
      have "normalize ?raw = map (\<lambda>v. v - ?gi ! a) ?raw"
        using rawne hd by (cases ?raw) (auto simp: normalize_def)
      then have "map (\<lambda>v. v + ?gi ! (a - 1) + 1) (normalize ?raw) = ?raw"
        using st by (simp add: comp_def)
      with ne last split wf_take_head [OF wf, of b] show ?thesis
        by (simp add: jsLast_def normalize_id)
    qed
  qed
  show ?thesis unfolding A J B by (rule goal)
qed

lemma slice1_from:
  assumes "offset i run = 0"
  shows "slice1 layout i (Some j) run =
     run\<lparr>r_start := r_start run + i,
         r_end := min (r_end run) (r_start run + j),
         r_glyphIndices := Some (normalize (jsSlice i (Some j) (orEmpty (r_glyphIndices run)))),
         r_glyphs := Some (jsSlice (glyphIndexAt i run) (Some (glyphIndexAt j run))
                             (orEmpty (r_glyphs run)) @ endGlyphs layout j run),
         r_positions := Some (jsSlice (glyphIndexAt i run) (Some (glyphIndexAt j run))
                                (orEmpty (r_positions run))
                              @ map (glyphPosition (scale run)) (endGlyphs layout j run))\<rparr>"
  using assms by (simp add: slice1_def Let_def endGlyphs_def)

lemma endGlyphs_none: "offset j run = 0 \<Longrightarrow> endGlyphs layout j run = []"
  by (simp add: endGlyphs_def slice2_empty)

theorem concat_slice1:
  assumes wf: "wfIndices (orEmpty (r_glyphIndices run))"
    and i0: "0 \<le> i" and ij: "i \<le> j" and jn: "j \<le> runLength run"
    and lig: "offset i run = 0"
  shows "concat_run (slice1 layout 0 (Some i) run) (slice1 layout i (Some j) run)
           = slice1 layout 0 (Some j) run"
proof -
  let ?gs = "orEmpty (r_glyphs run)" and ?ps = "orEmpty (r_positions run)"
  let ?ei = "glyphIndexAt i run" and ?ej = "glyphIndexAt j run"
  have z: "glyphIndexAt 0 run = 0" by (rule glyphIndexAt_zero [OF wf])
  from glyphIndexAt_bounds [OF wf i0 ij] have e: "0 \<le> ?ei" "?ei \<le> ?ej" by auto
  have A: "slice1 layout 0 (Some i) run =
     run\<lparr>r_start := r_start run + 0,
         r_end := min (r_end run) (r_start run + i),
         r_glyphIndices := Some (normalize (jsSlice 0 (Some i) (orEmpty (r_glyphIndices run)))),
         r_glyphs := Some (jsSlice 0 (Some ?ei) ?gs),
         r_positions := Some (jsSlice 0 (Some ?ei) ?ps)\<rparr>"
    using slice1_from [OF offset_zero, of layout i run] by (simp add: z endGlyphs_none [OF lig])
  have J: "slice1 layout 0 (Some j) run =
     run\<lparr>r_start := r_start run + 0,
         r_end := min (r_end run) (r_start run + j),
         r_glyphIndices := Some (normalize (jsSlice 0 (Some j) (orEmpty (r_glyphIndices run)))),
         r_glyphs := Some (jsSlice 0 (Some ?ej) ?gs @ endGlyphs layout j run),
         r_positions := Some (jsSlice 0 (Some ?ej) ?ps
                              @ map (glyphPosition (scale run)) (endGlyphs layout j run))\<rparr>"
    using slice1_from [OF offset_zero, of layout j run] by (simp add: z)
  have g: "jsSlice 0 (Some ?ei) ?gs @ jsSlice ?ei (Some ?ej) ?gs = jsSlice 0 (Some ?ej) ?gs"
    using e by (intro jsSlice_split) auto
  have p: "jsSlice 0 (Some ?ei) ?ps @ jsSlice ?ei (Some ?ej) ?ps = jsSlice 0 (Some ?ej) ?ps"
    using e by (intro jsSlice_split) auto
  have ends: "min (r_end run) (r_start run + i) = r_start run + i"
    "min (r_end run) (r_start run + j) = r_start run + j"
    using ij jn by (simp_all add: runLength_def)
  show ?thesis
    unfolding A J slice1_from [OF lig]
    using indices_join [OF wf i0 ij lig] g p
    by (simp add: concat_run_def Let_def orEmpty_def runLength_def ends map_add_self
        append_assoc [symmetric] del: append_assoc)
qed

lemma subtract_zero: "subtract 0 r = r"
  by (simp add: subtract_def)

lemma concat_run_subtract: "concat_run x (subtract i y) = concat_run x y"
  by (simp add: concat_run_def subtract_def runLength_def Let_def)

lemma single_run_slice:
  assumes runs: "a_runs s = [run]" and st: "r_start run = 0"
    and en: "r_end run = int (length (a_string s))" and ne: "a_string s \<noteq> []"
    and i0: "0 \<le> i" and ij: "i \<le> j" and jn: "j \<le> int (length (a_string s))"
  shows "a_runs (slice layout i j s) = [subtract i (slice1 layout i (Some j) run)]"
proof -
  define n where "n = int (length (a_string s))"
  have pos: "0 < n" using ne by (simp add: n_def)
  have en': "r_end run = n" and jn': "j \<le> n" using en jn by (simp_all add: n_def)
  have f: "filterRuns i j [run] = [run]"
    using st en' pos i0 ij jn'
    by (auto simp: filterRuns_def runIndexAt1_def jsSlice_def jsIndex_def Let_def max_def)
  show ?thesis
    using ne by (simp add: slice_def Let_def runs f sliceRuns_def st)
qed

text \<open>
  Claim C4, as the code has it. \<^verbatim>\<open>concat\<close> is an operation on two runs (there is none
  on attributed strings). For an attributed string \<open>s\<close> of one run that spans its string,
  with glyph indices as shaping produces them, and \<open>0 \<le> i \<le> j \<le> length s\<close> where \<open>i\<close> does
  not cut a ligature: the strings of \<^verbatim>\<open>slice(0,i,s)\<close> and \<^verbatim>\<open>slice(i,j,s)\<close> concatenate to
  the string of \<^verbatim>\<open>slice(0,j,s)\<close>, each slice has one run, and \<^verbatim>\<open>concat\<close> of the runs of
  the first two is the run of \<^verbatim>\<open>slice(0,j,s)\<close>.
\<close>

theorem slice_concat:
  assumes runs: "a_runs s = [run]" and st: "r_start run = 0"
    and en: "r_end run = int (length (a_string s))" and ne: "a_string s \<noteq> []"
    and wf: "wfIndices (orEmpty (r_glyphIndices run))"
    and i0: "0 \<le> i" and ij: "i \<le> j" and jn: "j \<le> int (length (a_string s))"
    and lig: "offset i run = 0"
  shows "a_string (slice layout 0 i s) @ a_string (slice layout i j s)
           = a_string (slice layout 0 j s)
       \<and> length (a_runs (slice layout 0 i s)) = 1
       \<and> length (a_runs (slice layout i j s)) = 1
       \<and> a_runs (slice layout 0 j s)
           = [concat_run (hd (a_runs (slice layout 0 i s))) (hd (a_runs (slice layout i j s)))]"
proof -
  have A: "a_runs (slice layout 0 i s) = [subtract 0 (slice1 layout 0 (Some i) run)]"
    using i0 ij jn by (intro single_run_slice [OF runs st en ne]) auto
  have B: "a_runs (slice layout i j s) = [subtract i (slice1 layout i (Some j) run)]"
    using i0 ij jn by (intro single_run_slice [OF runs st en ne]) auto
  have J: "a_runs (slice layout 0 j s) = [subtract 0 (slice1 layout 0 (Some j) run)]"
    using i0 ij jn by (intro single_run_slice [OF runs st en ne]) auto
  have jl: "j \<le> runLength run" using jn st en by (simp add: runLength_def)
  have str: "a_string (slice layout 0 i s) @ a_string (slice layout i j s)
           = a_string (slice layout 0 j s)"
    using ne jsSlice_split [OF order_refl i0 ij, of "a_string s"]
    by (simp add: slice_def Let_def)
  from concat_slice1 [OF wf i0 ij jl lig, of layout] str show ?thesis
    by (simp add: A B J subtract_zero concat_run_subtract)
qed

theorem slice_concat_witness:
  "a_runs fiAndX = [hd (a_runs fiAndX)] \<and> r_start (hd (a_runs fiAndX)) = 0
   \<and> r_end (hd (a_runs fiAndX)) = int (length (a_string fiAndX)) \<and> a_string fiAndX \<noteq> []
   \<and> wfIndices (orEmpty (r_glyphIndices (hd (a_runs fiAndX))))
   \<and> (0::int) \<le> 2 \<and> (2::int) \<le> 3 \<and> 3 \<le> int (length (a_string fiAndX))
   \<and> offset 2 (hd (a_runs fiAndX)) = 0
   \<and> a_string (slice noLayout 0 2 fiAndX) @ a_string (slice noLayout 2 3 fiAndX)
        = a_string (slice noLayout 0 3 fiAndX)
   \<and> a_runs (slice noLayout 0 3 fiAndX)
        = [concat_run (hd (a_runs (slice noLayout 0 2 fiAndX)))
                      (hd (a_runs (slice noLayout 2 3 fiAndX)))]
   \<and> a_string (slice noLayout 0 3 fiAndX) = ''fi ''"
proof -
  have h1: "a_runs fiAndX = [hd (a_runs fiAndX)]" by (simp add: fiAndX_def)
  have h2: "r_start (hd (a_runs fiAndX)) = 0" by (simp add: fiAndX_def)
  have h3: "r_end (hd (a_runs fiAndX)) = int (length (a_string fiAndX))"
    by (simp add: fiAndX_def)
  have h4: "a_string fiAndX \<noteq> []" by (simp add: fiAndX_def)
  have h5: "wfIndices (orEmpty (r_glyphIndices (hd (a_runs fiAndX))))" by code_simp
  have h6: "(0::int) \<le> 2" "(2::int) \<le> 3" by simp_all
  have h7: "3 \<le> int (length (a_string fiAndX))" by (simp add: fiAndX_def)
  have h8: "offset 2 (hd (a_runs fiAndX)) = 0" by code_simp
  have v: "a_string (slice noLayout 0 3 fiAndX) = ''fi ''" by code_simp
  from slice_concat [OF h1 h2 h3 h4 h5 h6 h7 h8, of noLayout] h1 h2 h3 h4 h5 h7 h8 v
  show ?thesis by simp
qed

text \<open>
  The claim as the spec words it fails where \<open>i\<close> cuts a ligature: both parts get a glyph
  for their share of the ligature (without a font, the ligature itself), so the joined run
  has two glyphs where the slice up to \<open>j\<close> has the one ligature.
\<close>

theorem slice_concat_ligature:
  "r_glyphs (concat_run (hd (a_runs (slice noLayout 0 1 fi))) (hd (a_runs (slice noLayout 1 2 fi))))
     = Some [ligature, ligature]
   \<and> r_glyphs (hd (a_runs (slice noLayout 0 2 fi))) = Some [ligature]
   \<and> a_runs (slice noLayout 0 2 fi)
       \<noteq> [concat_run (hd (a_runs (slice noLayout 0 1 fi))) (hd (a_runs (slice noLayout 1 2 fi)))]"
proof -
  have a: "r_glyphs (concat_run (hd (a_runs (slice noLayout 0 1 fi)))
                                (hd (a_runs (slice noLayout 1 2 fi))))
             = Some [ligature, ligature]"
    by code_simp
  have b: "r_glyphs (hd (a_runs (slice noLayout 0 2 fi))) = Some [ligature]"
    by code_simp
  have "ligature \<noteq> ligature \<or> [ligature] \<noteq> [ligature, ligature]" by simp
  with a b show ?thesis by (metis list.sel(1) option.inject)
qed

section \<open>The empty attributed string\<close>

text \<open>
  What the operations return on the empty attributed string. \<^verbatim>\<open>slice\<close> and \<^verbatim>\<open>trim\<close>
  return it unchanged and \<^verbatim>\<open>flatten\<close> returns no runs for no runs. \<^verbatim>\<open>append\<close> of a glyph
  returns the characters of the glyph, in one run that holds the glyph; \<^verbatim>\<open>append\<close> of
  \<^verbatim>\<open>null\<close> returns the empty string with one empty run.
\<close>

lemma empty_string_operations:
  "slice layout start end' empty_string = empty_string
   \<and> trim layout empty_string = empty_string
   \<and> flatten ([] :: ('i \<times> run) list) = []
   \<and> append glyphFor (GGlyph g) empty_string
       = Inr \<lparr>a_string = stringFromCodePoints (g_codePoints g),
              a_runs = [\<lparr>r_start = 0, r_end = int (length (g_codePoints g)),
                         r_attributes = Map.empty,
                         r_glyphIndices = Some (replicate (length (g_codePoints g)) 0),
                         r_glyphs = Some [g],
                         r_positions = Some [glyphPosition 0 g]\<rparr>],
              a_syllables = []\<rparr>
   \<and> append glyphFor GNothing empty_string
       = Inr \<lparr>a_string = [], a_runs = [empty_run], a_syllables = []\<rparr>"
proof -
  have sl: "slice layout a b empty_string = empty_string" for a b
    by (simp add: slice_def empty_string_def)
  have tr: "trim layout empty_string = empty_string"
    by (simp add: trim_def Let_def sl)
  have fl: "flatten ([] :: ('i \<times> run) list) = []"
    by (simp add: flatten_def flattenEmptyRuns_def groupEmptyRuns_def groupKeys_def
        flattenRegularRuns_def generatePoints_def sortPoints_def sortRuns_def)
  have sc: "scale empty_run = 0"
    by (simp add: scale_def calculateScale_def getFont_def empty_run_def)
  have ag: "append glyphFor (GGlyph g) empty_string
       = Inr \<lparr>a_string = stringFromCodePoints (g_codePoints g),
              a_runs = [\<lparr>r_start = 0, r_end = int (length (g_codePoints g)),
                         r_attributes = Map.empty,
                         r_glyphIndices = Some (replicate (length (g_codePoints g)) 0),
                         r_glyphs = Some [g],
                         r_positions = Some [glyphPosition 0 g]\<rparr>],
              a_syllables = []\<rparr>"
    by (simp add: append_def append1_def appendGlyph_def isFalsy_def resolveGlyph_def
        codePointsOf_def jsLast_def jsSlice_def jsIndex_def appendIndices_def Let_def
        empty_string_def empty_run_def sc [unfolded empty_run_def])
  have an: "append glyphFor GNothing empty_string
       = Inr \<lparr>a_string = [], a_runs = [empty_run], a_syllables = []\<rparr>"
    by (simp add: append_def append1_def isFalsy_def codePointsOf_def jsLast_def jsSlice_def
        jsIndex_def stringFromCodePoints_def Let_def empty_string_def)
  from sl tr fl ag an show ?thesis by simp
qed

text \<open>
  Claim C9 at a failing input. \<^verbatim>\<open>append\<close> of a code point to the empty attributed string
  throws: the run made for the empty string has no font, so \<^verbatim>\<open>fromCodePoint\<close> gives
  \<^verbatim>\<open>null\<close>, and \<^verbatim>\<open>appendGlyph\<close> reads \<^verbatim>\<open>glyph.codePoints\<close> of it. \<^verbatim>\<open>insertGlyph$1\<close>,
  which resolves its glyph in the same way, returns the run unchanged for a \<^verbatim>\<open>null\<close>
  glyph; \<^verbatim>\<open>append$1\<close> tests only the value it is given, before the glyph is resolved.
\<close>

theorem append_code_point_to_empty:
  "append someGlyphFor (GCode 45) empty_string = Inl TypeError"
  by (simp add: append_def append1_def appendGlyph_def isFalsy_def resolveGlyph_def
      fromCodePoint_def getFont_def jsLast_def empty_run_def empty_string_def Let_def)


section \<open>Tolerance escalation and the best-fit fallback\<close>

lemma escalate_tries:
  assumes "50 \<le> t + 5 * of_nat n" and "n = 0 \<or> t + 5 * of_nat n - 5 < 50"
  shows "snd (escalate nodes w t (linebreak nodes w t))
           = tryTolerances nodes w (map (\<lambda>k. t + 5 * of_nat k) [0..<Suc n])"
  using assms
proof (induction n arbitrary: t)
  case 0
  then show ?case
    by (subst escalate.simps) (simp add: TOLERANCE_LIMIT_def)
next
  case (Suc n)
  have lt: "t < 50" using Suc.prems by auto
  have a: "50 \<le> (t + 5) + 5 * of_nat n" using Suc.prems by (simp add: algebra_simps)
  have b: "n = 0 \<or> (t + 5) + 5 * of_nat n - 5 < 50" using Suc.prems by (simp add: algebra_simps)
  have m: "map (\<lambda>k. t + 5 * of_nat k) [0..<Suc (Suc n)]
             = t # map (\<lambda>k. (t + 5) + 5 * of_nat k) [0..<Suc n]"
  proof -
    have "[0..<Suc (Suc n)] = 0 # map Suc [0..<Suc n]"
      by (simp add: upt_conv_Cons map_Suc_upt del: upt_Suc)
    then show ?thesis by (simp add: comp_def algebra_simps del: upt_Suc)
  qed
  show ?case
  proof (cases "linebreak nodes w t = []")
    case True
    then have "escalate nodes w t (linebreak nodes w t)
                 = escalate nodes w (t + 5) (linebreak nodes w (t + 5))"
      using lt by (subst escalate.simps) (simp add: TOLERANCE_LIMIT_def TOLERANCE_STEPS_def)
    then show ?thesis
      using Suc.IH [OF a b] True unfolding m by simp
  next
    case False
    then show ?thesis
      unfolding m by (subst escalate.simps) simp
  qed
qed

lemma escalate_default:
  "snd (escalate nodes w 4 (linebreak nodes w 4))
     = tryTolerances nodes w [4, 9, 14, 19, 24, 29, 34, 39, 44, 49, 54]"
proof -
  have "map (\<lambda>k. (4::rat) + 5 * of_nat k) [0..<Suc 10]
          = [4, 9, 14, 19, 24, 29, 34, 39, 44, 49, 54]"
    by (simp add: upt_rec)
  with escalate_tries [of 4 10 nodes w] show ?thesis by simp
qed

lemma jsSlice_all: "jsSlice 0 (Some (int (length xs))) xs = xs"
  by (simp add: jsSlice_def jsIndex_def)

lemma slice_whole: "a_string (slice layout 0 (int (length (a_string s))) s) = a_string s"
  by (simp add: slice_def Let_def jsSlice_all)

lemma breakLinesLoop_last:
  "\<forall>b\<in>set breaks. int b = int (length nodes) - 1 \<Longrightarrow>
   breakLinesLoop layout glyphFor s nodes breaks start acc = Inr (start, acc)"
  by (induction breaks) auto

lemma breakLines_unbroken:
  "\<forall>b\<in>set breaks. int b = int (length nodes) - 1 \<Longrightarrow>
   breakLines layout glyphFor s nodes breaks
     = Inr [slice layout 0 (int (length (a_string s))) s]"
  by (simp add: breakLines_def breakLinesLoop_last)

lemma jsSlice_tl: "jsSlice 1 None xs = tl xs"
  by (cases xs) (auto simp: jsSlice_def jsIndex_def)

text \<open>
  Claim C5, as the code has it. \<^verbatim>\<open>linebreak\<close> and \<^verbatim>\<open>applyBestFit\<close> raise no exception;
  a search without result is the empty list. From the default tolerance 4 the loop of
  \<^verbatim>\<open>linebreaker\<close> raises the tolerance by 5 while it is below 50 and the breaks are empty,
  so the tolerances that it tries are 4, 9, ..., 49 and 54. If the breaks are then empty,
  or only the start \<open>[0]\<close>, the breaks of the best-fit pass are taken. If the breaks that
  are chosen hold no break before the last node, the result is one line, the slice of the
  whole paragraph, and its string is the string of the paragraph.
\<close>

theorem linebreaker_fallback:
  "snd (escalate nodes widths 4 (linebreak nodes widths 4))
     = tryTolerances nodes widths [4, 9, 14, 19, 24, 29, 34, 39, 44, 49, 54]
   \<and> (tryTolerances nodes widths [4, 9, 14, 19, 24, 29, 34, 39, 44, 49, 54] \<in> {[], [0]}
        \<longrightarrow> chooseBreaks nodes widths 4 = applyBestFit nodes widths)
   \<and> (o_tolerance options = None
        \<and> (\<forall>b\<in>set (tl (chooseBreaks (getNodes s (getAttributes s) options) widths 4)).
               int b = int (length (getNodes s (getAttributes s) options)) - 1)
        \<longrightarrow> linebreaker layout glyphFor options s widths
              = Inr [slice layout 0 (int (length (a_string s))) s]
            \<and> a_string (slice layout 0 (int (length (a_string s))) s) = a_string s)"
proof (intro conjI impI)
  show "snd (escalate nodes widths 4 (linebreak nodes widths 4))
     = tryTolerances nodes widths [4, 9, 14, 19, 24, 29, 34, 39, 44, 49, 54]"
    by (rule escalate_default)
next
  assume "tryTolerances nodes widths [4, 9, 14, 19, 24, 29, 34, 39, 44, 49, 54] \<in> {[], [0]}"
  then have "snd (escalate nodes widths 4 (linebreak nodes widths 4)) \<in> {[], [0]}"
    by (simp only: escalate_default)
  then show "chooseBreaks nodes widths 4 = applyBestFit nodes widths"
    by (auto simp: chooseBreaks_def Let_def)
next
  assume a: "o_tolerance options = None
        \<and> (\<forall>b\<in>set (tl (chooseBreaks (getNodes s (getAttributes s) options) widths 4)).
               int b = int (length (getNodes s (getAttributes s) options)) - 1)"
  then show "linebreaker layout glyphFor options s widths
              = Inr [slice layout 0 (int (length (a_string s))) s]"
    by (simp add: linebreaker_def Let_def ratOr_def jsSlice_tl breakLines_unbroken)
next
  show "a_string (slice layout 0 (int (length (a_string s))) s) = a_string s"
    by (rule slice_whole)
qed

theorem linebreaker_fallback_witness:
  "tryTolerances (getNodes fi (getAttributes fi) noOptions) [5]
       [4, 9, 14, 19, 24, 29, 34, 39, 44, 49, 54] \<in> {[], [0]}
   \<and> chooseBreaks (getNodes fi (getAttributes fi) noOptions) [5] 4
       = applyBestFit (getNodes fi (getAttributes fi) noOptions) [5]
   \<and> applyBestFit (getNodes fi (getAttributes fi) noOptions) [5] = [0, 2]
   \<and> o_tolerance noOptions = None
   \<and> int (length (getNodes fi (getAttributes fi) noOptions)) - 1 = 2
   \<and> linebreaker noLayout someGlyphFor noOptions fi [5]
        = Inr [slice noLayout 0 (int (length (a_string fi))) fi]
   \<and> a_string (slice noLayout 0 (int (length (a_string fi))) fi) = a_string fi"
proof -
  let ?nodes = "getNodes fi (getAttributes fi) noOptions"
  have n: "?nodes = [Box 6 0 2 True, Glue 0 2 2 infinity 0, Penalty 0 (- infinity) 1]"
    by code_simp
  have "tryTolerances [Box 6 0 2 True, Glue 0 2 2 infinity 0, Penalty 0 (- infinity) 1] [5]
          [4, 9, 14, 19, 24, 29, 34, 39, 44, 49, 54] = []"
    by code_simp
  then have h1: "tryTolerances ?nodes [5] [4, 9, 14, 19, 24, 29, 34, 39, 44, 49, 54] \<in> {[], [0]}"
    unfolding n by simp
  have "applyBestFit [Box 6 0 2 True, Glue 0 2 2 infinity 0, Penalty 0 (- infinity) 1] [5]
          = [0, 2]"
    by code_simp
  then have bf: "applyBestFit ?nodes [5] = [0, 2]"
    unfolding n .
  have h2: "o_tolerance noOptions = None" by (simp add: noOptions_def)
  from linebreaker_fallback [where nodes = "?nodes" and widths = "[5]",
      THEN conjunct2, THEN conjunct1] h1
  have cb: "chooseBreaks ?nodes [5] 4 = applyBestFit ?nodes [5]" by (rule mp)
  have ln: "int (length ?nodes) - 1 = 2" unfolding n by simp
  have h3: "\<forall>b\<in>set (tl (chooseBreaks ?nodes [5] 4)). int b = int (length ?nodes) - 1"
    unfolding cb bf ln by simp
  from linebreaker_fallback [where options = noOptions and s = fi and widths = "[5]"
      and layout = noLayout and glyphFor = someGlyphFor,
      THEN conjunct2, THEN conjunct2] conjI [OF h2 h3]
  have lb: "linebreaker noLayout someGlyphFor noOptions fi [5]
        = Inr [slice noLayout 0 (int (length (a_string fi))) fi]
       \<and> a_string (slice noLayout 0 (int (length (a_string fi))) fi) = a_string fi"
    by (rule mp)
  show ?thesis
    by (rule conjI [OF h1 conjI [OF cb conjI [OF bf conjI [OF h2 conjI [OF ln lb]]]]])
qed

text \<open>
  The claim as the spec words it, with 50 as a ceiling of the tolerance, fails on these
  nodes: no tolerance up to 50 gives breaks, the loop goes on to 54, and the line breaker
  uses the breaks found there and not those of the best-fit pass.
\<close>

theorem tolerance_above_limit:
  "linebreak narrowGlue [100] 50 = []
   \<and> escalate narrowGlue [100] 4 (linebreak narrowGlue [100] 4) = (54, [0, 3, 6])
   \<and> chooseBreaks narrowGlue [100] 4 = [0, 3, 6]
   \<and> applyBestFit narrowGlue [100] = [0, 3]"
proof -
  have a: "linebreak narrowGlue [100] 50 = []" by code_simp
  have b: "escalate narrowGlue [100] 4 (linebreak narrowGlue [100] 4) = (54, [0, 3, 6])"
    by code_simp
  have c: "chooseBreaks narrowGlue [100] 4 = [0, 3, 6]" by code_simp
  have d: "applyBestFit narrowGlue [100] = [0, 3]" by code_simp
  show ?thesis by (rule conjI [OF a conjI [OF b conjI [OF c d]]])
qed


section \<open>Justification\<close>

subsection \<open>The choice of the priorities\<close>
























lemma last_unconstrained:
  "\<forall>f\<in>set xs. \<not> f_unconstrained f \<Longrightarrow> xs \<noteq> [] \<Longrightarrow> \<not> f_unconstrained (last xs)"
  by simp



















subsection \<open>What justification does to a line\<close>
















end
